theory Spec2Isabelle
  imports Complex_Main
begin

section \<open>Constants of the game\<close>

text \<open>
  The module-level constants of \<^verbatim>\<open>main.py\<close>.  Python floats are modelled as
  exact reals throughout: rounding of IEEE doubles is outside this model.
\<close>

definition FPS :: nat where
  "FPS = 60"

definition GAME_WIDTH :: real where
  "GAME_WIDTH = 800"

definition GAME_HEIGHT :: real where
  "GAME_HEIGHT = 600"

text \<open>
  The key codes of the host library that the program indexes the key snapshot with
  (\<^verbatim>\<open>pygame.K_w\<close> and so on).  Only their being different matters.
\<close>

definition K_ESCAPE :: nat where
  "K_ESCAPE = 27"

definition K_a :: nat where
  "K_a = 97"

definition K_d :: nat where
  "K_d = 100"

definition K_s :: nat where
  "K_s = 115"

definition K_w :: nat where
  "K_w = 119"

type_synonym keys = "nat \<Rightarrow> bool"

section \<open>Vector\<close>

record Vector =
  vx :: real
  vy :: real

definition Vector_add :: "Vector \<Rightarrow> Vector \<Rightarrow> Vector" where
  "Vector_add a b = \<lparr>vx = vx a + vx b, vy = vy a + vy b\<rparr>"

definition Vector_sub :: "Vector \<Rightarrow> Vector \<Rightarrow> Vector" where
  "Vector_sub a b = \<lparr>vx = vx a - vx b, vy = vy a - vy b\<rparr>"

definition get_x_vector :: "Vector \<Rightarrow> Vector" where
  "get_x_vector v = \<lparr>vx = vx v, vy = 0\<rparr>"

definition get_y_vector :: "Vector \<Rightarrow> Vector" where
  "get_y_vector v = \<lparr>vx = 0, vy = vy v\<rparr>"

definition get_vector_as_tuple :: "Vector \<Rightarrow> real \<times> real" where
  "get_vector_as_tuple v = (vx v, vy v)"

definition set_x_vector :: "Vector \<Rightarrow> real \<Rightarrow> Vector" where
  "set_x_vector v a = v\<lparr>vx := a\<rparr>"

definition set_y_vector :: "Vector \<Rightarrow> real \<Rightarrow> Vector" where
  "set_y_vector v a = v\<lparr>vy := a\<rparr>"

section \<open>Rectangles of the host library\<close>

text \<open>
  \<^verbatim>\<open>pygame.rect.Rect(x, y, w, h)\<close> holds four integers.  Python's \<^verbatim>\<open>int(f)\<close>
  on a float truncates towards zero.
\<close>

record Rect =
  rect_x :: int
  rect_y :: int
  rect_w :: int
  rect_h :: int

definition py_int :: "real \<Rightarrow> int" where
  "py_int r = (if 0 \<le> r then \<lfloor>r\<rfloor> else \<lceil>r\<rceil>)"

definition rect_left :: "Rect \<Rightarrow> int" where
  "rect_left r = rect_x r"

definition rect_right :: "Rect \<Rightarrow> int" where
  "rect_right r = rect_x r + rect_w r"

definition rect_top :: "Rect \<Rightarrow> int" where
  "rect_top r = rect_y r"

definition rect_bottom :: "Rect \<Rightarrow> int" where
  "rect_bottom r = rect_y r + rect_h r"

text \<open>
  \<^verbatim>\<open>Rect.colliderect\<close> of the host library: the interval-overlap test on both axes
  (edges that only touch do not overlap), with a rectangle of width or height zero
  intersecting nothing.
\<close>

definition colliderect :: "Rect \<Rightarrow> Rect \<Rightarrow> bool" where
  "colliderect a b =
     (if rect_w a = 0 \<or> rect_h a = 0 \<or> rect_w b = 0 \<or> rect_h b = 0 then False
      else min (rect_x a) (rect_x a + rect_w a) < max (rect_x b) (rect_x b + rect_w b)
         \<and> min (rect_y a) (rect_y a + rect_h a) < max (rect_y b) (rect_y b + rect_h b)
         \<and> max (rect_x a) (rect_x a + rect_w a) > min (rect_x b) (rect_x b + rect_w b)
         \<and> max (rect_y a) (rect_y a + rect_h a) > min (rect_y b) (rect_y b + rect_h b))"

section \<open>Timer and Stopwatch\<close>

text \<open>
  Of a \<^verbatim>\<open>Timer\<close> the field that decides its behaviour is kept: the remaining time.
  The position, font and rendered text only feed the drawing.  The callback
  \<^verbatim>\<open>on_end\<close> is a closure fixed where the timer is built, so each place that ticks a
  timer knows which closure a completion runs: \<^verbatim>\<open>change_state\<close> for \<^verbatim>\<open>timer\<close>,
  \<^verbatim>\<open>spawn_bullet\<close> for \<^verbatim>\<open>bullet_timer\<close>, \<^verbatim>\<open>interval_end\<close> for the timer of a
  sprite cycle.
\<close>

record Timer =
  time :: real

record Stopwatch =
  sw_time :: real

definition Timer_init :: "real \<Rightarrow> Timer" where
  "Timer_init t = \<lparr>time = t\<rparr>"

definition Stopwatch_init :: Stopwatch where
  "Stopwatch_init = \<lparr>sw_time = 0\<rparr>"

text \<open>
  The environment answers every call of \<^verbatim>\<open>fps_clock.tick(FPS)\<close>, the blocking
  frame-pacing call, with the milliseconds that have passed: \<open>el k\<close> is the answer to the
  call number \<open>k\<close> of the run.  \<open>Timer_tick\<close> takes the number of calls made so far and
  returns the ticked timer, the new number of calls, and whether \<^verbatim>\<open>self.on_end()\<close> is
  invoked at the end of this tick.
\<close>

definition Timer_tick :: "(nat \<Rightarrow> nat) \<Rightarrow> nat \<Rightarrow> Timer \<Rightarrow> Timer \<times> nat \<times> bool" where
  "Timer_tick el calls t =
     (let (t1, calls1) =
            (if time t > 0
             then (t\<lparr>time := time t - real (el calls) / 1000\<rparr>, calls + 1)
             else (t, calls))
      in (t1, calls1, time t1 \<le> 0))"

definition Stopwatch_tick :: "(nat \<Rightarrow> nat) \<Rightarrow> nat \<Rightarrow> Stopwatch \<Rightarrow> Stopwatch \<times> nat" where
  "Stopwatch_tick el calls s =
     (s\<lparr>sw_time := sw_time s + real (el calls) / 1000\<rparr>, calls + 1)"

text \<open>
  The same \<^verbatim>\<open>Timer\<close> object ticked \<open>n\<close> times in a row, by a caller that keeps it
  (its callback does not touch it): the timer, the number of pacing calls, and the number
  of times \<^verbatim>\<open>on_end\<close> has been invoked.
\<close>

fun Timer_ticks :: "(nat \<Rightarrow> nat) \<Rightarrow> nat \<Rightarrow> Timer \<times> nat \<times> nat \<Rightarrow> Timer \<times> nat \<times> nat" where
  "Timer_ticks el 0 s = s"
| "Timer_ticks el (Suc n) (t, calls, fired) =
     (let (t1, calls1, f) = Timer_tick el calls t
      in Timer_ticks el n (t1, calls1, (if f then fired + 1 else fired)))"

section \<open>Errors\<close>

text \<open>
  The exceptions the modelled code can raise: \<^verbatim>\<open>list.remove(x)\<close> of an absent
  element, and \<^verbatim>\<open>%\<close> by zero.  Nothing catches them: an error ends the run.
\<close>

datatype error = ValueError | ZeroDivisionError

definition py_remove :: "'a \<Rightarrow> 'a list \<Rightarrow> error + 'a list" where
  "py_remove a xs = (if a \<in> set xs then Inr (remove1 a xs) else Inl ValueError)"

section \<open>Sprite cycles\<close>

text \<open>
  A \<^verbatim>\<open>SpriteCycle\<close> with the number of its sprites (the images themselves only feed
  the drawing), the index of the current one, and its interval timer.  The closure
  \<^verbatim>\<open>interval_end\<close> captures the interval, kept here as a field.
\<close>

record SpriteCycle =
  n_sprites :: nat
  sprite_index :: nat
  interval :: real
  interval_timer :: Timer

definition SpriteCycle_init :: "nat \<Rightarrow> real \<Rightarrow> SpriteCycle" where
  "SpriteCycle_init n iv =
     \<lparr>n_sprites = n, sprite_index = 0, interval = iv, interval_timer = Timer_init iv\<rparr>"

definition interval_end :: "SpriteCycle \<Rightarrow> error + SpriteCycle" where
  "interval_end c =
     (if n_sprites c = 0 then Inl ZeroDivisionError
      else Inr (c\<lparr>sprite_index := (sprite_index c + 1) mod n_sprites c,
                  interval_timer := Timer_init (interval c)\<rparr>))"

text \<open>
  The loop at the head of \<^verbatim>\<open>Player.draw\<close>: every cycle's interval timer is ticked, in
  the order of the dictionary, and a completed one runs \<^verbatim>\<open>interval_end\<close>.
\<close>

fun tick_cycles ::
  "(nat \<Rightarrow> nat) \<Rightarrow> nat \<Rightarrow> (string \<times> SpriteCycle) list
     \<Rightarrow> error + (string \<times> SpriteCycle) list \<times> nat" where
  "tick_cycles el calls [] = Inr ([], calls)"
| "tick_cycles el calls ((name, c) # cs) =
     (let (t1, calls1, fired) = Timer_tick el calls (interval_timer c);
          c1 = c\<lparr>interval_timer := t1\<rparr>
      in case (if fired then interval_end c1 else Inr c1) of
           Inl e \<Rightarrow> Inl e
         | Inr c2 \<Rightarrow>
             (case tick_cycles el calls1 cs of
                Inl e \<Rightarrow> Inl e
              | Inr (cs1, calls2) \<Rightarrow> Inr ((name, c2) # cs1, calls2)))"

section \<open>Player\<close>

datatype move_state = Still | Moving

record Player =
  p_x :: real
  p_y :: real
  acceleration_vector :: Vector
  velocity_vector :: Vector
  hitbox :: Rect
  sight :: real
  show_sight :: bool
  is_playing_animation :: bool
  state :: move_state
  sprites :: "(string \<times> SpriteCycle) list"

definition MAX_SPEED :: real where
  "MAX_SPEED = 3"

definition WIDTH :: int where
  "WIDTH = 48"

definition HEIGHT :: int where
  "HEIGHT = 48"

definition FRICTION_VECTOR :: Vector where
  "FRICTION_VECTOR = \<lparr>vx = 0.05, vy = 0.05\<rparr>"

definition Player_hitbox :: "real \<Rightarrow> real \<Rightarrow> Rect" where
  "Player_hitbox a b =
     \<lparr>rect_x = py_int (a - real_of_int WIDTH / 2), rect_y = py_int (b - real_of_int HEIGHT / 2),
      rect_w = WIDTH, rect_h = HEIGHT\<rparr>"

text \<open>
  The sprite sheet of the player: one cycle per row of the image, with the numbers of
  images, names and intervals that \<^verbatim>\<open>Player.__init__\<close> lists.  The image file is not
  part of the sources; it is taken to have the nine rows of that table.
\<close>

definition player_sprites :: "(string \<times> SpriteCycle) list" where
  "player_sprites =
     map (\<lambda>(name, n, iv). (name, SpriteCycle_init n iv))
       [(''stand'', 2, 1), (''blink'', 2, 0.1), (''walk'', 4, 0.1), (''sprint'', 8, 0.1),
        (''crouch'', 6, 0.1), (''jump'', 8, 0.1), (''fade'', 3, 0.1), (''death'', 8, 0.1),
        (''attack'', 8, 0.1)]"

definition Player_init :: "real \<Rightarrow> real \<Rightarrow> Vector \<Rightarrow> Player" where
  "Player_init a b acc =
     \<lparr>p_x = a, p_y = b, acceleration_vector = acc,
      velocity_vector = \<lparr>vx = 0, vy = 0\<rparr>,
      hitbox = Player_hitbox a b,
      sight = 0, show_sight = False, is_playing_animation = True,
      state = Still, sprites = player_sprites\<rparr>"

text \<open>
  \<^verbatim>\<open>Player.key_move\<close>.  \<open>velocity_x\<close> and \<open>velocity_y\<close> are read once, after the
  keys have been applied, and every later test uses these two values, as the source does.
\<close>

definition key_move :: "keys \<Rightarrow> Player \<Rightarrow> Player" where
  "key_move ks p =
     (let a = acceleration_vector p;
          v0 = velocity_vector p;
          v1 = (if ks K_w then Vector_sub v0 (get_y_vector a) else v0);
          v2 = (if ks K_s then Vector_add v1 (get_y_vector a) else v1);
          v3 = (if ks K_a then Vector_sub v2 (get_x_vector a) else v2);
          v4 = (if ks K_d then Vector_add v3 (get_x_vector a) else v3);
          (velocity_x, velocity_y) = get_vector_as_tuple v4;
          v5 = (if velocity_x > MAX_SPEED then set_x_vector v4 MAX_SPEED else v4);
          v6 = (if velocity_x < - MAX_SPEED then set_x_vector v5 (- MAX_SPEED) else v5);
          v7 = (if velocity_y > MAX_SPEED then set_y_vector v6 MAX_SPEED else v6);
          v8 = (if velocity_y < - MAX_SPEED then set_y_vector v7 (- MAX_SPEED) else v7);
          v9 = (if velocity_x > 0 then Vector_sub v8 (get_x_vector FRICTION_VECTOR) else v8);
          v10 = (if velocity_y > 0 then Vector_sub v9 (get_y_vector FRICTION_VECTOR) else v9);
          v11 = (if velocity_x < 0 then Vector_add v10 (get_x_vector FRICTION_VECTOR) else v10);
          v12 = (if velocity_y < 0 then Vector_add v11 (get_y_vector FRICTION_VECTOR) else v11);
          v13 = (if - 0.05 < vx v12 \<and> vx v12 < 0.05 then set_x_vector v12 0 else v12);
          v14 = (if - 0.05 < vy v13 \<and> vy v13 < 0.05 then set_y_vector v13 0 else v13)
      in p\<lparr>velocity_vector := v14,
           state := (if velocity_x \<noteq> 0 \<or> velocity_y \<noteq> 0 then Moving else Still)\<rparr>)"

text \<open>\<^verbatim>\<open>Player.move\<close>: add the velocity, clamp the position, rebuild the hitbox.\<close>

definition move :: "Player \<Rightarrow> Player" where
  "move p =
     (let (velocity_x, velocity_y) = get_vector_as_tuple (velocity_vector p);
          x1 = p_x p + velocity_x;
          y1 = p_y p + velocity_y;
          x2 = (if x1 < real_of_int WIDTH / 2 then real_of_int WIDTH / 2 else x1);
          x3 = (if x2 > GAME_WIDTH - real_of_int WIDTH / 2 then GAME_WIDTH - real_of_int WIDTH / 2 else x2);
          y2 = (if y1 < real_of_int HEIGHT / 2 then real_of_int HEIGHT / 2 else y1);
          y3 = (if y2 > GAME_HEIGHT - real_of_int HEIGHT / 2 then GAME_HEIGHT - real_of_int HEIGHT / 2 else y2)
      in p\<lparr>p_x := x3, p_y := y3, hitbox := Player_hitbox x3 y3\<rparr>)"

text \<open>
  The sight animation in the middle of \<^verbatim>\<open>Player.draw\<close> (the \<^verbatim>\<open>if\<close>/\<^verbatim>\<open>elif\<close> on
  \<^verbatim>\<open>self.sight\<close>).
\<close>

definition animate_sight :: "Player \<Rightarrow> Player" where
  "animate_sight p =
     (if sight p < 1 \<and> is_playing_animation p then p\<lparr>sight := sight p + 0.02\<rparr>
      else if sight p \<ge> 1 \<and> is_playing_animation p
      then p\<lparr>sight := 1, is_playing_animation := False\<rparr>
      else p)"

text \<open>
  \<^verbatim>\<open>Player.draw\<close>: tick the cycles, draw the sight circle (no effect on the state),
  animate the sight, draw the sprite (no effect on the state).
\<close>

definition Player_draw :: "(nat \<Rightarrow> nat) \<Rightarrow> nat \<Rightarrow> Player \<Rightarrow> error + Player \<times> nat" where
  "Player_draw el calls p =
     (case tick_cycles el calls (sprites p) of
        Inl e \<Rightarrow> Inl e
      | Inr (cs, calls1) \<Rightarrow> Inr (animate_sight (p\<lparr>sprites := cs\<rparr>), calls1))"

text \<open>
  What \<^verbatim>\<open>on_player_bullet_collide\<close> does to the player it is given:
  \<^verbatim>\<open>if user.sight >= 0.1: user.sight -= 0.05\<close>.
\<close>

definition bullet_hit :: "Player \<Rightarrow> Player" where
  "bullet_hit p = (if sight p \<ge> 0.1 then p\<lparr>sight := sight p - 0.05\<rparr> else p)"

text \<open>
  An interleaving of the two operations that change the sight, each frame's draw and a hit
  by a projectile, run on one player.
\<close>

datatype sight_op = Draw | Hit

fun sight_ops ::
  "(nat \<Rightarrow> nat) \<Rightarrow> sight_op list \<Rightarrow> Player \<times> nat \<Rightarrow> error + Player \<times> nat" where
  "sight_ops el [] s = Inr s"
| "sight_ops el (Draw # ops) (p, calls) =
     (case Player_draw el calls p of Inl e \<Rightarrow> Inl e | Inr s1 \<Rightarrow> sight_ops el ops s1)"
| "sight_ops el (Hit # ops) (p, calls) = sight_ops el ops (bullet_hit p, calls)"

section \<open>Projectiles, walls, the goal zone\<close>

text \<open>
  A \<^verbatim>\<open>TextBullet\<close>.  Its text is the index of the chosen entry of \<^verbatim>\<open>TEXTS\<close>; the
  size of the rendered text comes from the font of the host library.
\<close>

record TextBullet =
  b_x :: real
  b_y :: real
  b_text :: nat
  movement_vector :: Vector
  b_size :: "int \<times> int"
  b_hitbox :: Rect

definition TextBullet_hitbox :: "real \<Rightarrow> real \<Rightarrow> int \<times> int \<Rightarrow> Rect" where
  "TextBullet_hitbox a b sz =
     (let (text_width, text_height) = sz
      in \<lparr>rect_x = py_int (a - real_of_int text_width / 2),
          rect_y = py_int (b - real_of_int text_height / 2),
          rect_w = text_width, rect_h = text_height\<rparr>)"

definition TextBullet_init :: "(nat \<Rightarrow> int \<times> int) \<Rightarrow> int \<Rightarrow> nat \<Rightarrow> Vector \<Rightarrow> TextBullet" where
  "TextBullet_init render_size y txt mv =
     (let sz = render_size txt;
          a = - (real_of_int (fst sz) / 2)
      in \<lparr>b_x = a, b_y = real_of_int y, b_text = txt, movement_vector = mv, b_size = sz,
          b_hitbox = TextBullet_hitbox a (real_of_int y) sz\<rparr>)"

definition TextBullet_move :: "TextBullet \<Rightarrow> TextBullet" where
  "TextBullet_move b =
     (let (velocity_x, velocity_y) = get_vector_as_tuple (movement_vector b);
          x1 = b_x b + velocity_x;
          y1 = b_y b + velocity_y
      in b\<lparr>b_x := x1, b_y := y1, b_hitbox := TextBullet_hitbox x1 y1 (b_size b)\<rparr>)"

record Wall =
  w_x :: int
  w_y :: int
  w_width :: int
  w_height :: int
  w_hitbox :: Rect

definition Wall_init :: "int \<Rightarrow> int \<Rightarrow> int \<Rightarrow> int \<Rightarrow> Wall" where
  "Wall_init a b w h =
     \<lparr>w_x = a, w_y = b, w_width = w, w_height = h,
      w_hitbox = \<lparr>rect_x = a, rect_y = b, rect_w = w, rect_h = h\<rparr>\<rparr>"

record EndZone =
  e_x :: int
  e_y :: int
  e_width :: int
  e_height :: int
  e_hitbox :: Rect

definition EndZone_init :: "int \<Rightarrow> int \<Rightarrow> int \<Rightarrow> int \<Rightarrow> EndZone" where
  "EndZone_init a b w h =
     \<lparr>e_x = a, e_y = b, e_width = w, e_height = h,
      e_hitbox = \<lparr>rect_x = a, rect_y = b, rect_w = w, rect_h = h\<rparr>\<rparr>"

section \<open>The state of the game loop\<close>

text \<open>
  The rosters hold references.  The player and the goal zone are single objects; a wall
  is named by its index in \<^verbatim>\<open>walls\<close>; a projectile and the phase clock (the
  \<^verbatim>\<open>Timer\<close> or \<^verbatim>\<open>Stopwatch\<close> bound to \<^verbatim>\<open>timer\<close>) are named by the number they
  get when they are built.
\<close>

datatype movable = MPlayer | MBullet nat

datatype drawable = DPlayer | DBullet nat | DWall nat | DEndZone | DClock nat

datatype clock = CTimer Timer | CStopwatch Stopwatch

datatype event = QUIT | OTHER

text \<open>
  The variables of \<^verbatim>\<open>main\<close> that its closures and its loop share, the store of the
  projectiles built so far (\<open>bullet_objs\<close>, read only at the numbers in the rosters),
  the counter that names new objects, and the state of the host library the loop
  depends on: the number of pacing calls made, the event queue, the lines printed.
\<close>

record game =
  game_state :: "nat option"
  player :: Player
  timer :: clock
  timer_id :: nat
  bullet_timer :: Timer
  end_zone :: EndZone
  bullets :: "nat list"
  drawables :: "drawable list"
  movables :: "movable list"
  walls :: "Wall list"
  bullet_objs :: "nat \<Rightarrow> TextBullet"
  next_obj :: nat
  clock_calls :: nat
  event_queue :: "event list"
  printed :: "string list"

text \<open>
  The environment of a run: the answers of the pacing call, and for the projectile with
  number \<open>k\<close> the results of \<^verbatim>\<open>randint(20, GAME_HEIGHT - 20)\<close>,
  \<^verbatim>\<open>choice(TEXTS)\<close> and \<^verbatim>\<open>uniform(1.5, 2.5)\<close>; the size the font renders a text at.
\<close>

record env =
  elapsed :: "nat \<Rightarrow> nat"
  rand_y :: "nat \<Rightarrow> int"
  rand_text :: "nat \<Rightarrow> nat"
  rand_speed :: "nat \<Rightarrow> real"
  render_size :: "nat \<Rightarrow> int \<times> int"

text \<open>
  The input of one frame: the key snapshot, the events posted since the last frame, and the
  events posted between this frame's \<^verbatim>\<open>pygame.event.clear()\<close> and its
  \<^verbatim>\<open>pygame.event.get()\<close>.
\<close>

record input =
  pressed :: keys
  arrivals :: "event list"
  late_arrivals :: "event list"

subsection \<open>The closures of main\<close>

definition on_state_change :: "game \<Rightarrow> game" where
  "on_state_change g =
     (let k = next_obj g;
          g1 = g\<lparr>timer := CStopwatch Stopwatch_init, timer_id := k, next_obj := k + 1\<rparr>;
          g2 = g1\<lparr>player := (player g1)\<lparr>show_sight := True\<rparr>\<rparr>;
          g3 = g2\<lparr>bullets := []\<rparr>;
          g4 = g3\<lparr>drawables :=
                    [DPlayer] @ map DWall [0..<length (walls g3)] @ [DEndZone, DClock (timer_id g3)]\<rparr>;
          g5 = g4\<lparr>movables := [MPlayer]\<rparr>
      in g5\<lparr>player := (player g5)\<lparr>p_x := 50, p_y := 50\<rparr>\<rparr>)"

definition change_state :: "game \<Rightarrow> game" where
  "change_state g = on_state_change (g\<lparr>game_state := Some 2\<rparr>)"

definition spawn_bullet :: "env \<Rightarrow> game \<Rightarrow> game" where
  "spawn_bullet ev g =
     (let k = next_obj g;
          b = TextBullet_init (render_size ev) (rand_y ev k) (rand_text ev k)
                \<lparr>vx = rand_speed ev k, vy = 0\<rparr>
      in g\<lparr>bullet_objs := (bullet_objs g)(k := b), next_obj := k + 1,
           bullets := bullets g @ [k],
           drawables := drawables g @ [DBullet k],
           movables := movables g @ [MBullet k],
           bullet_timer := Timer_init 0.25\<rparr>)"

definition on_player_bullet_collide :: "nat \<Rightarrow> game \<Rightarrow> error + game" where
  "on_player_bullet_collide b g =
     (case py_remove b (bullets g) of
        Inl e \<Rightarrow> Inl e
      | Inr bs \<Rightarrow>
          (case py_remove (MBullet b) (movables g) of
             Inl e \<Rightarrow> Inl e
           | Inr ms \<Rightarrow>
               (case py_remove (DBullet b) (drawables g) of
                  Inl e \<Rightarrow> Inl e
                | Inr ds \<Rightarrow>
                    Inr (g\<lparr>bullets := bs, movables := ms, drawables := ds,
                           player := bullet_hit (player g)\<rparr>))))"

definition on_player_wall_collide :: "game \<Rightarrow> game" where
  "on_player_wall_collide g =
     g\<lparr>player := (player g)\<lparr>p_x := 50, p_y := 50, velocity_vector := \<lparr>vx = 0, vy = 0\<rparr>\<rparr>\<rparr>"

definition on_player_end_collide :: "game \<Rightarrow> game" where
  "on_player_end_collide g = g\<lparr>game_state := Some 3\<rparr>"

subsection \<open>The steps of a frame\<close>

text \<open>
  \<^verbatim>\<open>check_quit\<close> on the key snapshot and the event queue: the result and the queue it
  leaves (\<^verbatim>\<open>pygame.event.get()\<close> empties it; with the escape key held it is not
  called).
\<close>

definition check_quit :: "keys \<Rightarrow> event list \<Rightarrow> bool \<times> event list" where
  "check_quit ks q =
     (if ks K_ESCAPE then (True, q)
      else if QUIT \<in> set q then (True, [])
      else (False, []))"

text \<open>\<^verbatim>\<open>timer.tick()\<close>, on the \<^verbatim>\<open>Timer(20, change_state)\<close> or the \<^verbatim>\<open>Stopwatch\<close>.\<close>

definition tick_timer :: "env \<Rightarrow> game \<Rightarrow> game" where
  "tick_timer ev g =
     (case timer g of
        CTimer t \<Rightarrow>
          (let (t1, calls1, fired) = Timer_tick (elapsed ev) (clock_calls g) t;
               g1 = g\<lparr>timer := CTimer t1, clock_calls := calls1\<rparr>
           in if fired then change_state g1 else g1)
      | CStopwatch s \<Rightarrow>
          (let (s1, calls1) = Stopwatch_tick (elapsed ev) (clock_calls g) s
           in g\<lparr>timer := CStopwatch s1, clock_calls := calls1\<rparr>))"

text \<open>\<^verbatim>\<open>bullet_timer.tick()\<close>, on a \<^verbatim>\<open>Timer(_, spawn_bullet)\<close>.\<close>

definition tick_bullet_timer :: "env \<Rightarrow> game \<Rightarrow> game" where
  "tick_bullet_timer ev g =
     (let (t1, calls1, fired) = Timer_tick (elapsed ev) (clock_calls g) (bullet_timer g);
          g1 = g\<lparr>bullet_timer := t1, clock_calls := calls1\<rparr>
      in if fired then spawn_bullet ev g1 else g1)"

text \<open>\<^verbatim>\<open>player.is_colliding(wall, on_player_wall_collide)\<close> for every wall.\<close>

definition wall_collisions :: "game \<Rightarrow> game" where
  "wall_collisions g =
     fold (\<lambda>wall g1. if colliderect (hitbox (player g1)) (w_hitbox wall)
                     then on_player_wall_collide g1 else g1)
       (walls g) g"

text \<open>\<^verbatim>\<open>moveable.move()\<close> for every entry of \<^verbatim>\<open>movables\<close>.\<close>

definition move_movable :: "movable \<Rightarrow> game \<Rightarrow> game" where
  "move_movable m g =
     (case m of
        MPlayer \<Rightarrow> g\<lparr>player := move (player g)\<rparr>
      | MBullet k \<Rightarrow> g\<lparr>bullet_objs := (bullet_objs g)(k := TextBullet_move (bullet_objs g k))\<rparr>)"

definition move_all :: "game \<Rightarrow> game" where
  "move_all g = fold move_movable (movables g) g"

text \<open>
  \<^verbatim>\<open>drawable.draw(game_window)\<close> for every entry of \<^verbatim>\<open>drawables\<close>.  Only the
  player's draw changes the state.
\<close>

definition draw :: "env \<Rightarrow> drawable \<Rightarrow> game \<Rightarrow> error + game" where
  "draw ev d g =
     (case d of
        DPlayer \<Rightarrow>
          (case Player_draw (elapsed ev) (clock_calls g) (player g) of
             Inl e \<Rightarrow> Inl e
           | Inr (p, calls1) \<Rightarrow> Inr (g\<lparr>player := p, clock_calls := calls1\<rparr>))
      | _ \<Rightarrow> Inr g)"

fun draw_list :: "env \<Rightarrow> drawable list \<Rightarrow> game \<Rightarrow> error + game" where
  "draw_list ev [] g = Inr g"
| "draw_list ev (d # ds) g =
     (case draw ev d g of Inl e \<Rightarrow> Inl e | Inr g1 \<Rightarrow> draw_list ev ds g1)"

definition draw_all :: "env \<Rightarrow> game \<Rightarrow> error + game" where
  "draw_all ev g = draw_list ev (drawables g) g"

text \<open>
  \<^verbatim>\<open>for bullet in bullets: player.is_colliding(bullet, on_player_bullet_collide)\<close>.
  Python's loop over a list reads the element at the next index of the list as it is at
  that moment, until the index reaches the length; the callback removes from the very list
  the loop runs over.  \<open>i\<close> is the index of the loop; the result holds the projectiles
  that were tested against the player, in order, and the state.
\<close>

function bullet_collisions :: "nat \<Rightarrow> nat list \<Rightarrow> game \<Rightarrow> error + nat list \<times> game" where
  "bullet_collisions i seen g =
     (if i < length (bullets g) then
        (let bullet = bullets g ! i
         in if colliderect (hitbox (player g)) (b_hitbox (bullet_objs g bullet))
            then (case on_player_bullet_collide bullet g of
                    Inl e \<Rightarrow> Inl e
                  | Inr g1 \<Rightarrow> bullet_collisions (i + 1) (seen @ [bullet]) g1)
            else bullet_collisions (i + 1) (seen @ [bullet]) g)
      else Inr (seen, g))"
  by pat_completeness auto
termination
  by (relation "measure (\<lambda>(i, seen, g). length (bullets g) - i)")
    (auto simp: on_player_bullet_collide_def py_remove_def length_remove1
      split: sum.splits if_splits)

declare bullet_collisions.simps [simp del]

text \<open>\<^verbatim>\<open>player.is_colliding(end_zone, on_player_end_collide)\<close>.\<close>

definition end_collision :: "game \<Rightarrow> game" where
  "end_collision g =
     (if colliderect (hitbox (player g)) (e_hitbox (end_zone g))
      then on_player_end_collide g else g)"

subsection \<open>The body of the loop, and the loop\<close>

text \<open>
  One pass through the body of \<^verbatim>\<open>while game_state is not None\<close>, in three parts.
  Filling the window and updating the display leave the state alone.

  The first part runs from the key snapshot to the movement: the events posted since the
  last frame join the queue, \<^verbatim>\<open>pygame.event.clear()\<close> empties it, the events posted after
  that join it, \<^verbatim>\<open>check_quit\<close> runs, then the timers, the wall collisions,
  \<^verbatim>\<open>key_move\<close> and the movables.
\<close>

definition frame_update :: "env \<Rightarrow> input \<Rightarrow> game \<Rightarrow> game" where
  "frame_update ev inp g =
     (let ks = pressed inp;
          g0 = g\<lparr>event_queue := event_queue g @ arrivals inp\<rparr>;
          g1 = g0\<lparr>event_queue := []\<rparr>;
          g2 = g1\<lparr>event_queue := event_queue g1 @ late_arrivals inp\<rparr>;
          (quit, q) = check_quit ks (event_queue g2);
          g3 = g2\<lparr>event_queue := q\<rparr>;
          g4 = (if quit then g3\<lparr>game_state := None\<rparr> else g3);
          g5 = tick_timer ev g4;
          g6 = (if game_state g5 = Some 1 then tick_bullet_timer ev g5 else g5);
          g7 = (if game_state g6 = Some 2 then wall_collisions g6 else g6);
          g8 = g7\<lparr>player := key_move ks (player g7)\<rparr>
      in move_all g8)"

text \<open>
  The last part runs after the pass over the projectiles: the goal collision in phase 2,
  and the end of the game in phase 3.
\<close>

definition frame_finish :: "game \<Rightarrow> game" where
  "frame_finish g =
     (let g1 = (if game_state g = Some 2 then end_collision g else g)
      in if game_state g1 = Some 3
         then g1\<lparr>printed := printed g1 @ [''End''], game_state := None\<rparr>
         else g1)"

text \<open>Between the two, the drawables are drawn and the projectiles are tested.\<close>

definition frame :: "env \<Rightarrow> input \<Rightarrow> game \<Rightarrow> error + game" where
  "frame ev inp g =
     (case draw_all ev (frame_update ev inp g) of
        Inl e \<Rightarrow> Inl e
      | Inr g1 \<Rightarrow>
          (case bullet_collisions 0 [] g1 of
             Inl e \<Rightarrow> Inl e
           | Inr (seen, g2) \<Rightarrow> Inr (frame_finish g2)))"

text \<open>
  The loop over the inputs of the successive frames.  It stops at the first test of
  \<^verbatim>\<open>game_state is not None\<close> that fails; the inputs that remain are not read.
\<close>

fun run :: "env \<Rightarrow> input list \<Rightarrow> game \<Rightarrow> error + game" where
  "run ev [] g = Inr g"
| "run ev (inp # inps) g =
     (if game_state g = None then Inr g
      else case frame ev inp g of Inl e \<Rightarrow> Inl e | Inr g1 \<Rightarrow> run ev inps g1)"

subsection \<open>The state at the entry of the loop\<close>

definition maze :: "Wall list" where
  "maze =
     [Wall_init 0 100 200 20, Wall_init 200 100 20 100, Wall_init 120 200 100 20,
      Wall_init 300 100 200 20, Wall_init 300 180 200 20, Wall_init 300 180 20 120,
      Wall_init 500 100 20 100, Wall_init 600 100 200 20, Wall_init 40 100 20 120,
      Wall_init 0 280 220 20, Wall_init 100 380 220 20, Wall_init 100 380 20 100,
      Wall_init 100 480 100 20, Wall_init 0 380 40 20, Wall_init 0 450 40 20,
      Wall_init 100 560 20 100, Wall_init 100 560 100 20, Wall_init 100 560 100 20,
      Wall_init 300 400 20 120, Wall_init 380 480 20 120, Wall_init 460 380 20 220,
      Wall_init 300 380 180 20, Wall_init 300 280 180 20, Wall_init 500 180 240 20,
      Wall_init 500 180 240 20, Wall_init 580 180 20 140, Wall_init 580 180 20 180,
      Wall_init 680 260 140 20, Wall_init 580 340 100 20, Wall_init 580 440 100 20,
      Wall_init 580 440 20 180, Wall_init 680 340 20 120, Wall_init 680 520 20 140]"

definition initial_game :: game where
  "initial_game =
     \<lparr>game_state = Some 1,
      player = Player_init 200 200 \<lparr>vx = 0.25, vy = 0.25\<rparr>,
      timer = CTimer (Timer_init 20),
      timer_id = 0,
      bullet_timer = Timer_init 2,
      end_zone = EndZone_init 600 520 80 140,
      bullets = [],
      drawables = [DPlayer, DClock 0],
      movables = [MPlayer],
      walls = maze,
      bullet_objs = (\<lambda>k. TextBullet_init (\<lambda>t. (0, 0)) 0 0 \<lparr>vx = 0, vy = 0\<rparr>),
      next_obj = 1,
      clock_calls = 0,
      event_queue = [],
      printed = []\<rparr>"

section \<open>A sample environment and sample states\<close>

text \<open>
  An environment whose pacing call always answers \<open>ms\<close> milliseconds, whose projectiles
  all fly on the lane y = 200 at speed 2, and whose font renders every text 600 wide and
  14 high.
\<close>

definition steady_env :: "nat \<Rightarrow> env" where
  "steady_env ms =
     \<lparr>elapsed = (\<lambda>k. ms), rand_y = (\<lambda>k. 200), rand_text = (\<lambda>k. 0),
      rand_speed = (\<lambda>k. 2), render_size = (\<lambda>t. (600, 14))\<rparr>"

text \<open>The state after the first projectile has been spawned, with the sight at 0.5.\<close>

definition one_bullet :: game where
  "one_bullet =
     spawn_bullet (steady_env 16) (initial_game\<lparr>player := (player initial_game)\<lparr>sight := 0.5\<rparr>\<rparr>)"

text \<open>
  A projectile of the sample environment in flight, its centre at x-coordinate \<open>a\<close> on
  the lane y = 200.
\<close>

definition flying_bullet :: "real \<Rightarrow> TextBullet" where
  "flying_bullet a =
     \<lparr>b_x = a, b_y = 200, b_text = 0, movement_vector = \<lparr>vx = 2, vy = 0\<rparr>,
      b_size = (600, 14), b_hitbox = TextBullet_hitbox a 200 (600, 14)\<rparr>"

text \<open>
  A state of the countdown phase with two live projectiles, 30 apart on the same lane, into
  which the player has just moved up: its hitbox overlaps both.
\<close>

definition two_hits :: game where
  "two_hits =
     initial_game
       \<lparr>player := (player initial_game)
                  \<lparr>p_y := 230, hitbox := Player_hitbox 200 230, sight := 0.5\<rparr>,
        bullets := [1, 2],
        drawables := [DPlayer, DClock 0, DBullet 1, DBullet 2],
        movables := [MPlayer, MBullet 1, MBullet 2],
        bullet_objs := (\<lambda>k. flying_bullet (if k = 1 then - 60 else - 90)),
        next_obj := 3,
        bullet_timer := Timer_init 0.25\<rparr>"

text \<open>
  Inputs of a frame: no key held and no event; the escape key and the D key held; no key
  held and a window-close event posted since the last frame.
\<close>

definition idle_input :: input where
  "idle_input = \<lparr>pressed = (\<lambda>k. False), arrivals = [], late_arrivals = []\<rparr>"

definition escape_input :: input where
  "escape_input =
     \<lparr>pressed = (\<lambda>k. k = K_ESCAPE \<or> k = K_d), arrivals = [], late_arrivals = []\<rparr>"

definition close_input :: input where
  "close_input = \<lparr>pressed = (\<lambda>k. False), arrivals = [QUIT], late_arrivals = []\<rparr>"

text \<open>
  Two readings of a state that the statements about a frame use: whether the coming tick
  of the phase clock completes the countdown (runs \<^verbatim>\<open>change_state\<close>), and how many of
  the player's sprite cycles have an interval timer with time left.
\<close>

definition countdown_completes :: "env \<Rightarrow> game \<Rightarrow> bool" where
  "countdown_completes ev g =
     (case timer g of
        CTimer t \<Rightarrow> snd (snd (Timer_tick (elapsed ev) (clock_calls g) t))
      | CStopwatch s \<Rightarrow> False)"

definition running_cycles :: "Player \<Rightarrow> nat" where
  "running_cycles p = length (filter (\<lambda>x. 0 < time (interval_timer (snd x))) (sprites p))"

section \<open>Velocity clamp\<close>

lemma key_move_velocity:
  "\<exists>v. velocity_vector (key_move ks p) =
     (let (velocity_x, velocity_y) = get_vector_as_tuple v;
          v5 = (if velocity_x > MAX_SPEED then set_x_vector v MAX_SPEED else v);
          v6 = (if velocity_x < - MAX_SPEED then set_x_vector v5 (- MAX_SPEED) else v5);
          v7 = (if velocity_y > MAX_SPEED then set_y_vector v6 MAX_SPEED else v6);
          v8 = (if velocity_y < - MAX_SPEED then set_y_vector v7 (- MAX_SPEED) else v7);
          v9 = (if velocity_x > 0 then Vector_sub v8 (get_x_vector FRICTION_VECTOR) else v8);
          v10 = (if velocity_y > 0 then Vector_sub v9 (get_y_vector FRICTION_VECTOR) else v9);
          v11 = (if velocity_x < 0 then Vector_add v10 (get_x_vector FRICTION_VECTOR) else v10);
          v12 = (if velocity_y < 0 then Vector_add v11 (get_y_vector FRICTION_VECTOR) else v11);
          v13 = (if - 0.05 < vx v12 \<and> vx v12 < 0.05 then set_x_vector v12 0 else v12);
          v14 = (if - 0.05 < vy v13 \<and> vy v13 < 0.05 then set_y_vector v13 0 else v13)
      in v14)"
  unfolding key_move_def Let_def by (rule exI, simp add: case_prod_beta)

text \<open>
  C6: for every key snapshot and every player (whatever its velocity and acceleration,
  so in particular for a starting velocity within bounds), after \<open>key_move\<close> both
  velocity components are at most \<open>MAX_SPEED = 3\<close> in magnitude.
\<close>

theorem key_move_velocity_bounded:
  "\<bar>vx (velocity_vector (key_move ks p))\<bar> \<le> MAX_SPEED
   \<and> \<bar>vy (velocity_vector (key_move ks p))\<bar> \<le> MAX_SPEED
   \<and> MAX_SPEED = 3"
proof -
  obtain v where v: "velocity_vector (key_move ks p) =
     (let (velocity_x, velocity_y) = get_vector_as_tuple v;
          v5 = (if velocity_x > MAX_SPEED then set_x_vector v MAX_SPEED else v);
          v6 = (if velocity_x < - MAX_SPEED then set_x_vector v5 (- MAX_SPEED) else v5);
          v7 = (if velocity_y > MAX_SPEED then set_y_vector v6 MAX_SPEED else v6);
          v8 = (if velocity_y < - MAX_SPEED then set_y_vector v7 (- MAX_SPEED) else v7);
          v9 = (if velocity_x > 0 then Vector_sub v8 (get_x_vector FRICTION_VECTOR) else v8);
          v10 = (if velocity_y > 0 then Vector_sub v9 (get_y_vector FRICTION_VECTOR) else v9);
          v11 = (if velocity_x < 0 then Vector_add v10 (get_x_vector FRICTION_VECTOR) else v10);
          v12 = (if velocity_y < 0 then Vector_add v11 (get_y_vector FRICTION_VECTOR) else v11);
          v13 = (if - 0.05 < vx v12 \<and> vx v12 < 0.05 then set_x_vector v12 0 else v12);
          v14 = (if - 0.05 < vy v13 \<and> vy v13 < 0.05 then set_y_vector v13 0 else v13)
      in v14)"
    using key_move_velocity by blast
  have x: "\<bar>vx (velocity_vector (key_move ks p))\<bar> \<le> MAX_SPEED"
    unfolding v
    by (simp add: Let_def get_vector_as_tuple_def set_x_vector_def set_y_vector_def
        Vector_sub_def Vector_add_def get_x_vector_def get_y_vector_def
        FRICTION_VECTOR_def MAX_SPEED_def)
  have y: "\<bar>vy (velocity_vector (key_move ks p))\<bar> \<le> MAX_SPEED"
    unfolding v
    by (simp add: Let_def get_vector_as_tuple_def set_x_vector_def set_y_vector_def
        Vector_sub_def Vector_add_def get_x_vector_def get_y_vector_def
        FRICTION_VECTOR_def MAX_SPEED_def)
  show ?thesis using x y by (simp add: MAX_SPEED_def)
qed

section \<open>The hitbox of the player\<close>

lemma move_pos:
  "real_of_int WIDTH / 2 \<le> p_x (move p) \<and> p_x (move p) \<le> GAME_WIDTH - real_of_int WIDTH / 2
   \<and> real_of_int HEIGHT / 2 \<le> p_y (move p) \<and> p_y (move p) \<le> GAME_HEIGHT - real_of_int HEIGHT / 2"
  by (simp add: move_def Let_def case_prod_beta WIDTH_def HEIGHT_def
      GAME_WIDTH_def GAME_HEIGHT_def)

lemma move_hitbox: "hitbox (move p) = Player_hitbox (p_x (move p)) (p_y (move p))"
  by (simp add: move_def Let_def case_prod_beta)

lemma Player_hitbox_inside:
  assumes "real_of_int WIDTH / 2 \<le> a" and "a \<le> GAME_WIDTH - real_of_int WIDTH / 2"
    and "real_of_int HEIGHT / 2 \<le> b" and "b \<le> GAME_HEIGHT - real_of_int HEIGHT / 2"
  shows "0 \<le> rect_left (Player_hitbox a b) \<and> rect_right (Player_hitbox a b) \<le> 800
       \<and> 0 \<le> rect_top (Player_hitbox a b) \<and> rect_bottom (Player_hitbox a b) \<le> 600"
  using assms
  by (simp add: Player_hitbox_def py_int_def rect_left_def rect_right_def rect_top_def
      rect_bottom_def WIDTH_def HEIGHT_def GAME_WIDTH_def GAME_HEIGHT_def)

lemma Player_hitbox_size: "rect_w (Player_hitbox a b) = 48 \<and> rect_h (Player_hitbox a b) = 48"
  by (simp add: Player_hitbox_def py_int_def WIDTH_def HEIGHT_def)

lemma Player_hitbox_centre:
  "\<bar>a - real_of_int (rect_x (Player_hitbox a b) + 24)\<bar> < 1
   \<and> \<bar>b - real_of_int (rect_y (Player_hitbox a b) + 24)\<bar> < 1"
  by (simp add: Player_hitbox_def py_int_def WIDTH_def HEIGHT_def) linarith

text \<open>
  C7: after every call of the player's \<open>move\<close>, from any player state whatever (so
  after any number of frames and any inputs), the hitbox lies within the playfield: left
  edge at least 0, right edge at most 800, top edge at least 0, bottom edge at most 600.
\<close>

theorem move_hitbox_in_playfield:
  "0 \<le> rect_left (hitbox (move p)) \<and> rect_right (hitbox (move p)) \<le> 800
   \<and> 0 \<le> rect_top (hitbox (move p)) \<and> rect_bottom (hitbox (move p)) \<le> 600"
  unfolding move_hitbox using move_pos [of p] Player_hitbox_inside by blast

theorem key_move_velocity_bounded_witness:
  "\<bar>vx (velocity_vector (key_move (\<lambda>k. k = K_d)
        ((Player_init 200 200 \<lparr>vx = 0.25, vy = 0.25\<rparr>)\<lparr>velocity_vector := \<lparr>vx = 3, vy = - 3\<rparr>\<rparr>)))\<bar> \<le> 3
   \<and> velocity_vector (key_move (\<lambda>k. k = K_d)
        ((Player_init 200 200 \<lparr>vx = 0.25, vy = 0.25\<rparr>)\<lparr>velocity_vector := \<lparr>vx = 3, vy = - 3\<rparr>\<rparr>))
       = \<lparr>vx = 2.95, vy = - 2.95\<rparr>"
proof -
  have "velocity_vector (key_move (\<lambda>k. k = K_d)
        ((Player_init 200 200 \<lparr>vx = 0.25, vy = 0.25\<rparr>)\<lparr>velocity_vector := \<lparr>vx = 3, vy = - 3\<rparr>\<rparr>))
       = \<lparr>vx = 2.95, vy = - 2.95\<rparr>"
    by code_simp
  then show ?thesis
    using key_move_velocity_bounded [of "\<lambda>k. k = K_d"
        "(Player_init 200 200 \<lparr>vx = 0.25, vy = 0.25\<rparr>)\<lparr>velocity_vector := \<lparr>vx = 3, vy = - 3\<rparr>\<rparr>"]
    by simp
qed

theorem move_hitbox_in_playfield_witness:
  "hitbox (move ((Player_init 790 10 \<lparr>vx = 0.25, vy = 0.25\<rparr>)\<lparr>velocity_vector := \<lparr>vx = 3, vy = - 3\<rparr>\<rparr>))
     = \<lparr>rect_x = 752, rect_y = 0, rect_w = 48, rect_h = 48\<rparr>
   \<and> rect_right (hitbox (move ((Player_init 790 10 \<lparr>vx = 0.25, vy = 0.25\<rparr>)\<lparr>velocity_vector := \<lparr>vx = 3, vy = - 3\<rparr>\<rparr>))) \<le> 800"
proof -
  have "hitbox (move ((Player_init 790 10 \<lparr>vx = 0.25, vy = 0.25\<rparr>)\<lparr>velocity_vector := \<lparr>vx = 3, vy = - 3\<rparr>\<rparr>))
     = \<lparr>rect_x = 752, rect_y = 0, rect_w = 48, rect_h = 48\<rparr>"
    by code_simp
  then show ?thesis
    using move_hitbox_in_playfield
      [of "(Player_init 790 10 \<lparr>vx = 0.25, vy = 0.25\<rparr>)\<lparr>velocity_vector := \<lparr>vx = 3, vy = - 3\<rparr>\<rparr>"]
    by simp
qed

section \<open>The countdown timer\<close>

lemma Timer_tick_expired: "time t \<le> 0 \<Longrightarrow> Timer_tick el calls t = (t, calls, True)"
  by (simp add: Timer_tick_def)

lemma Timer_ticks_expired:
  "time t \<le> 0 \<Longrightarrow> Timer_ticks el n (t, calls, fired) = (t, calls, fired + n)"
  by (induction n arbitrary: fired) (simp_all add: Timer_tick_expired)

text \<open>
  C1, as stated, fails: a \<^verbatim>\<open>Timer(1, cb)\<close> ticked three times with 1000 ms each
  reaches 0 at the first tick and invokes its callback at each of the three ticks (and
  paces only once): an expired timer is not inert.
\<close>

theorem Timer_callback_fires_again:
  "Timer_ticks (\<lambda>k. 1000) 3 (Timer_init 1, 0, 0) = (Timer_init 0, 1, 3)"
  by code_simp

text \<open>
  C1, amended: at every tick the remaining time does not increase; the callback is invoked
  at a tick exactly when the remaining time after the tick is at most 0, so not before the
  first such tick, at that tick, and again at every later tick of the same timer: once
  expired, each of \<open>n\<close> further ticks leaves the time and the pacing count alone and
  invokes the callback.
\<close>

theorem Timer_tick_fires_whenever_expired:
  "time (fst (Timer_tick el calls t)) \<le> time t
   \<and> (snd (snd (Timer_tick el calls t)) \<longleftrightarrow> time (fst (Timer_tick el calls t)) \<le> 0)
   \<and> (time t \<le> 0 \<longrightarrow> Timer_ticks el n (t, calls, fired) = (t, calls, fired + n))"
proof -
  have "time (fst (Timer_tick el calls t)) \<le> time t"
    by (simp add: Timer_tick_def)
  moreover have "snd (snd (Timer_tick el calls t)) \<longleftrightarrow> time (fst (Timer_tick el calls t)) \<le> 0"
    by (simp add: Timer_tick_def)
  ultimately show ?thesis
    using Timer_ticks_expired by blast
qed

theorem Timer_tick_fires_whenever_expired_witness:
  "time (Timer_init 0) \<le> 0
   \<and> Timer_ticks (\<lambda>k. 16) 5 (Timer_init 0, 0, 0) = (Timer_init 0, 0, 5)
   \<and> time (fst (Timer_tick (\<lambda>k. 16) 0 (Timer_init 0))) \<le> time (Timer_init 0)"
  using Timer_tick_fires_whenever_expired [of "\<lambda>k. 16" 0 "Timer_init 0" 5 0]
  by (simp add: Timer_init_def)

text \<open>
  C9, as stated, fails twice.  The wall-collision teleport moves a player standing at
  (300, 300) to (50, 50) and leaves its hitbox at (276, 276), centred on (300, 300).  And
  \<open>move\<close> truncates: at x = 200.2 the hitbox starts at 176, so its centre is 200.
\<close>

theorem hitbox_not_recentred:
  "p_x (player (on_player_wall_collide (initial_game\<lparr>player := Player_init 300 300 \<lparr>vx = 0.25, vy = 0.25\<rparr>\<rparr>))) = 50
   \<and> p_y (player (on_player_wall_collide (initial_game\<lparr>player := Player_init 300 300 \<lparr>vx = 0.25, vy = 0.25\<rparr>\<rparr>))) = 50
   \<and> hitbox (player (on_player_wall_collide (initial_game\<lparr>player := Player_init 300 300 \<lparr>vx = 0.25, vy = 0.25\<rparr>\<rparr>)))
       = \<lparr>rect_x = 276, rect_y = 276, rect_w = 48, rect_h = 48\<rparr>
   \<and> p_x (move ((Player_init 200 200 \<lparr>vx = 0.25, vy = 0.25\<rparr>)\<lparr>velocity_vector := \<lparr>vx = 0.2, vy = 0\<rparr>\<rparr>)) = 200.2
   \<and> hitbox (move ((Player_init 200 200 \<lparr>vx = 0.25, vy = 0.25\<rparr>)\<lparr>velocity_vector := \<lparr>vx = 0.2, vy = 0\<rparr>\<rparr>))
       = \<lparr>rect_x = 176, rect_y = 176, rect_w = 48, rect_h = 48\<rparr>"
  by code_simp

text \<open>
  C9, amended: the hitbox is built by \<^verbatim>\<open>__init__\<close> and rebuilt by \<open>move\<close>, both
  times as the 48 by 48 rectangle whose top-left corner is the truncation of
  (x - 24, y - 24), so that its centre is less than 1 away from (x, y) in each coordinate;
  no other operation on the player changes its size.
\<close>

theorem player_hitbox_size_and_anchor:
  "hitbox (Player_init a b acc) = Player_hitbox a b
   \<and> hitbox (move p) = Player_hitbox (p_x (move p)) (p_y (move p))
   \<and> rect_w (Player_hitbox a b) = 48 \<and> rect_h (Player_hitbox a b) = 48
   \<and> rect_x (Player_hitbox a b) = py_int (a - 24) \<and> rect_y (Player_hitbox a b) = py_int (b - 24)
   \<and> \<bar>a - real_of_int (rect_x (Player_hitbox a b) + 24)\<bar> < 1
   \<and> \<bar>b - real_of_int (rect_y (Player_hitbox a b) + 24)\<bar> < 1
   \<and> hitbox (key_move ks p) = hitbox p
   \<and> hitbox (animate_sight p) = hitbox p
   \<and> hitbox (bullet_hit p) = hitbox p
   \<and> rect_w (hitbox (player (on_player_wall_collide g))) = rect_w (hitbox (player g))
   \<and> rect_h (hitbox (player (on_player_wall_collide g))) = rect_h (hitbox (player g))
   \<and> rect_w (hitbox (player (on_state_change g))) = rect_w (hitbox (player g))
   \<and> rect_h (hitbox (player (on_state_change g))) = rect_h (hitbox (player g))"
proof -
  have 1: "hitbox (Player_init a b acc) = Player_hitbox a b"
    by (simp add: Player_init_def)
  have 2: "rect_x (Player_hitbox a b) = py_int (a - 24) \<and> rect_y (Player_hitbox a b) = py_int (b - 24)"
    by (simp add: Player_hitbox_def WIDTH_def HEIGHT_def)
  have 3: "hitbox (key_move ks p) = hitbox p"
    by (simp add: key_move_def Let_def case_prod_beta)
  have 4: "hitbox (animate_sight p) = hitbox p" "hitbox (bullet_hit p) = hitbox p"
    by (simp_all add: animate_sight_def bullet_hit_def)
  have 5: "hitbox (player (on_player_wall_collide g)) = hitbox (player g)"
    "hitbox (player (on_state_change g)) = hitbox (player g)"
    by (simp_all add: on_player_wall_collide_def on_state_change_def Let_def)
  show ?thesis
    using 1 2 3 4 5 move_hitbox [of p] Player_hitbox_size [of a b] Player_hitbox_centre [of a b]
    by simp
qed

theorem player_hitbox_size_and_anchor_witness:
  "hitbox (Player_init 200.2 200 \<lparr>vx = 0.25, vy = 0.25\<rparr>) = Player_hitbox 200.2 200
   \<and> rect_w (Player_hitbox 200.2 200) = 48 \<and> rect_h (Player_hitbox 200.2 200) = 48
   \<and> rect_x (Player_hitbox 200.2 200) = 176
   \<and> \<bar>200.2 - real_of_int (rect_x (Player_hitbox 200.2 200) + 24)\<bar> < 1"
proof -
  have b: "rect_x (Player_hitbox 200.2 200) = 176"
    by code_simp
  show ?thesis
    using b player_hitbox_size_and_anchor [where a = "200.2" and b = 200
        and acc = "\<lparr>vx = 0.25, vy = 0.25\<rparr>"]
    by simp
qed

section \<open>The phase transition\<close>

lemma change_state_post:
  "bullets (change_state g) = []
   \<and> drawables (change_state g) = DPlayer # map DWall [0..<length (walls g)] @ [DEndZone, DClock (next_obj g)]
   \<and> movables (change_state g) = [MPlayer]
   \<and> timer (change_state g) = CStopwatch Stopwatch_init
   \<and> timer_id (change_state g) = next_obj g
   \<and> next_obj (change_state g) = next_obj g + 1
   \<and> walls (change_state g) = walls g
   \<and> show_sight (player (change_state g))
   \<and> p_x (player (change_state g)) = 50 \<and> p_y (player (change_state g)) = 50
   \<and> game_state (change_state g) = Some 2"
  by (simp add: change_state_def on_state_change_def Let_def)

lemma tick_timer_fired:
  assumes "timer g = CTimer t" and "snd (snd (Timer_tick (elapsed ev) (clock_calls g) t))"
  shows "tick_timer ev g =
     change_state (g\<lparr>timer := CTimer (fst (Timer_tick (elapsed ev) (clock_calls g) t)),
                     clock_calls := fst (snd (Timer_tick (elapsed ev) (clock_calls g) t))\<rparr>)"
  using assms by (simp add: tick_timer_def case_prod_beta Let_def)

text \<open>
  C3: when the tick of the countdown timer completes it (the callback fires), the state
  right after \<^verbatim>\<open>timer.tick()\<close> has no projectile in \<^verbatim>\<open>bullets\<close>, its drawables
  are the player, all walls, the goal zone and one newly built stopwatch (at time 0, under
  a number no object had before), its movables are the player alone, \<^verbatim>\<open>show_sight\<close>
  is set, the player is at (50, 50), and the phase is 2.
\<close>

theorem countdown_completion_swaps_rosters:
  assumes "timer g = CTimer t"
    and "snd (snd (Timer_tick (elapsed ev) (clock_calls g) t))"
  shows "bullets (tick_timer ev g) = []
   \<and> drawables (tick_timer ev g)
       = DPlayer # map DWall [0..<length (walls g)] @ [DEndZone, DClock (next_obj g)]
   \<and> movables (tick_timer ev g) = [MPlayer]
   \<and> timer (tick_timer ev g) = CStopwatch Stopwatch_init
   \<and> timer_id (tick_timer ev g) = next_obj g
   \<and> next_obj (tick_timer ev g) = next_obj g + 1
   \<and> show_sight (player (tick_timer ev g))
   \<and> p_x (player (tick_timer ev g)) = 50 \<and> p_y (player (tick_timer ev g)) = 50
   \<and> game_state (tick_timer ev g) = Some 2"
  unfolding tick_timer_fired [OF assms]
  using change_state_post
    [of "g\<lparr>timer := CTimer (fst (Timer_tick (elapsed ev) (clock_calls g) t)),
           clock_calls := fst (snd (Timer_tick (elapsed ev) (clock_calls g) t))\<rparr>"]
  by simp

theorem countdown_completion_swaps_rosters_witness:
  "timer initial_game = CTimer (Timer_init 20)
   \<and> snd (snd (Timer_tick (elapsed (steady_env 20000)) (clock_calls initial_game) (Timer_init 20)))
   \<and> bullets (tick_timer (steady_env 20000) initial_game) = []
   \<and> drawables (tick_timer (steady_env 20000) initial_game)
       = DPlayer # map DWall [0..<33] @ [DEndZone, DClock 1]
   \<and> movables (tick_timer (steady_env 20000) initial_game) = [MPlayer]
   \<and> timer (tick_timer (steady_env 20000) initial_game) = CStopwatch Stopwatch_init
   \<and> p_x (player (tick_timer (steady_env 20000) initial_game)) = 50
   \<and> game_state (tick_timer (steady_env 20000) initial_game) = Some 2"
proof -
  have a: "timer initial_game = CTimer (Timer_init 20)"
    by (simp add: initial_game_def)
  have b: "snd (snd (Timer_tick (elapsed (steady_env 20000)) (clock_calls initial_game) (Timer_init 20)))"
    by (simp add: Timer_tick_def Timer_init_def steady_env_def)
  have c: "length (walls initial_game) = 33" "next_obj initial_game = 1"
    by (simp_all add: initial_game_def maze_def)
  show ?thesis
    using a b c countdown_completion_swaps_rosters [OF a b] by simp
qed

section \<open>A projectile hits the player\<close>

lemma bullet_hit_sight:
  "sight (bullet_hit p) = (if sight p \<ge> 0.1 then sight p - 0.05 else sight p)"
  by (simp add: bullet_hit_def)

text \<open>
  C5: in a state whose rosters each hold the projectile once (every projectile is appended
  once to each roster when it is spawned), the reaction to a collision of the player with
  it returns normally, the projectile is in no roster afterwards, and the sight drops by
  exactly 0.05 if it was at least 0.1 (0.5 becomes 0.45) and is unchanged if it was below
  0.1 (0.08 stays 0.08).
\<close>

theorem bullet_collision_removes_and_dims:
  assumes "b \<in> set (bullets g)" and "MBullet b \<in> set (movables g)"
    and "DBullet b \<in> set (drawables g)"
    and "distinct (bullets g)" and "distinct (movables g)" and "distinct (drawables g)"
  shows "on_player_bullet_collide b g =
           Inr (g\<lparr>bullets := remove1 b (bullets g), movables := remove1 (MBullet b) (movables g),
                  drawables := remove1 (DBullet b) (drawables g),
                  player := bullet_hit (player g)\<rparr>)
   \<and> b \<notin> set (remove1 b (bullets g))
   \<and> MBullet b \<notin> set (remove1 (MBullet b) (movables g))
   \<and> DBullet b \<notin> set (remove1 (DBullet b) (drawables g))
   \<and> (sight (player g) \<ge> 0.1 \<longrightarrow> sight (bullet_hit (player g)) = sight (player g) - 0.05)
   \<and> (sight (player g) < 0.1 \<longrightarrow> sight (bullet_hit (player g)) = sight (player g))
   \<and> (sight (player g) = 0.5 \<longrightarrow> sight (bullet_hit (player g)) = 0.45)
   \<and> (sight (player g) = 0.08 \<longrightarrow> sight (bullet_hit (player g)) = 0.08)"
  using assms
  by (simp add: on_player_bullet_collide_def py_remove_def bullet_hit_sight)

lemma one_bullet_rosters:
  "bullets one_bullet = [1]" "movables one_bullet = [MPlayer, MBullet 1]"
  "drawables one_bullet = [DPlayer, DClock 0, DBullet 1]"
  by (simp_all add: one_bullet_def spawn_bullet_def initial_game_def Let_def)

lemma one_bullet_sight: "sight (player one_bullet) = 0.5"
  by (simp add: one_bullet_def spawn_bullet_def initial_game_def Let_def)

theorem bullet_collision_removes_and_dims_witness:
  "1 \<in> set (bullets one_bullet) \<and> MBullet 1 \<in> set (movables one_bullet)
   \<and> DBullet 1 \<in> set (drawables one_bullet)
   \<and> distinct (bullets one_bullet) \<and> distinct (movables one_bullet)
   \<and> distinct (drawables one_bullet)
   \<and> sight (player one_bullet) = 0.5
   \<and> on_player_bullet_collide 1 one_bullet =
        Inr (one_bullet\<lparr>bullets := [], movables := [MPlayer],
               drawables := [DPlayer, DClock 0], player := bullet_hit (player one_bullet)\<rparr>)
   \<and> sight (bullet_hit (player one_bullet)) = 0.45"
proof -
  have h: "1 \<in> set (bullets one_bullet)" "MBullet 1 \<in> set (movables one_bullet)"
    "DBullet 1 \<in> set (drawables one_bullet)"
    "distinct (bullets one_bullet)" "distinct (movables one_bullet)"
    "distinct (drawables one_bullet)"
    by (simp_all add: one_bullet_rosters)
  have c: "on_player_bullet_collide 1 one_bullet =
        Inr (one_bullet\<lparr>bullets := [], movables := [MPlayer],
               drawables := [DPlayer, DClock 0], player := bullet_hit (player one_bullet)\<rparr>)"
    "sight (bullet_hit (player one_bullet)) = 0.45"
    using bullet_collision_removes_and_dims [OF h] one_bullet_sight
    by (simp_all add: one_bullet_rosters)
  show ?thesis
    using h c one_bullet_sight by blast
qed

section \<open>The sight of the player\<close>

lemma animate_sight_fields:
  "sight (animate_sight (p\<lparr>sprites := cs\<rparr>)) = sight (animate_sight p)"
  "is_playing_animation (animate_sight (p\<lparr>sprites := cs\<rparr>)) = is_playing_animation (animate_sight p)"
  "sprites (animate_sight p) = sprites p"
  by (simp_all add: animate_sight_def)

lemma Player_draw_sight:
  assumes "Player_draw el c p = Inr (p', c')"
  shows "sight p' = sight (animate_sight p)"
    and "is_playing_animation p' = is_playing_animation (animate_sight p)"
  using assms
  by (auto simp: Player_draw_def animate_sight_fields split: sum.splits prod.splits)

lemma animate_sight_inv:
  assumes "0 \<le> sight p" and "sight p < 1.02" and "\<not> is_playing_animation p \<longrightarrow> sight p \<le> 1"
  shows "0 \<le> sight (animate_sight p) \<and> sight (animate_sight p) < 1.02
       \<and> (\<not> is_playing_animation (animate_sight p) \<longrightarrow> sight (animate_sight p) \<le> 1)"
  using assms by (simp add: animate_sight_def)

lemma bullet_hit_inv:
  assumes "0 \<le> sight p" and "sight p < 1.02" and "\<not> is_playing_animation p \<longrightarrow> sight p \<le> 1"
  shows "0 \<le> sight (bullet_hit p) \<and> sight (bullet_hit p) < 1.02
       \<and> (\<not> is_playing_animation (bullet_hit p) \<longrightarrow> sight (bullet_hit p) \<le> 1)"
  using assms by (simp add: bullet_hit_def)

lemma sight_ops_inv:
  assumes "sight_ops el ops (p, c) = Inr (p', c')"
    and "0 \<le> sight p" and "sight p < 1.02" and "\<not> is_playing_animation p \<longrightarrow> sight p \<le> 1"
  shows "0 \<le> sight p' \<and> sight p' < 1.02 \<and> (\<not> is_playing_animation p' \<longrightarrow> sight p' \<le> 1)"
  using assms
proof (induction ops arbitrary: p c)
  case Nil
  then show ?case by simp
next
  case (Cons op ops)
  show ?case
  proof (cases op)
    case Draw
    with Cons.prems(1) obtain p1 c1 where d: "Player_draw el c p = Inr (p1, c1)"
      and r: "sight_ops el ops (p1, c1) = Inr (p', c')"
      by (auto split: sum.splits)
    have "0 \<le> sight p1 \<and> sight p1 < 1.02 \<and> (\<not> is_playing_animation p1 \<longrightarrow> sight p1 \<le> 1)"
      using animate_sight_inv [OF Cons.prems(2-4)] Player_draw_sight [OF d] by simp
    then show ?thesis using Cons.IH [OF r] by blast
  next
    case Hit
    with Cons.prems(1) have r: "sight_ops el ops (bullet_hit p, c) = Inr (p', c')"
      by simp
    show ?thesis
      using Cons.IH [OF r] bullet_hit_inv [OF Cons.prems(2-4)] by blast
  qed
qed

lemma sight_ops_once:
  assumes "sight_ops el ops (q, c) = Inr (q', c')" and "\<not> is_playing_animation q"
  shows "\<not> is_playing_animation q' \<and> sight q' \<le> sight q"
  using assms
proof (induction ops arbitrary: q c)
  case Nil
  then show ?case by simp
next
  case (Cons op ops)
  show ?case
  proof (cases op)
    case Draw
    with Cons.prems(1) obtain p1 c1 where d: "Player_draw el c q = Inr (p1, c1)"
      and r: "sight_ops el ops (p1, c1) = Inr (q', c')"
      by (auto split: sum.splits)
    have "\<not> is_playing_animation p1 \<and> sight p1 = sight q"
      using Player_draw_sight [OF d] Cons.prems(2) by (simp add: animate_sight_def)
    then show ?thesis using Cons.IH [OF r] by simp
  next
    case Hit
    with Cons.prems(1) have r: "sight_ops el ops (bullet_hit q, c) = Inr (q', c')"
      by simp
    have "\<not> is_playing_animation (bullet_hit q) \<and> sight (bullet_hit q) \<le> sight q"
      using Cons.prems(2) by (simp add: bullet_hit_def)
    then show ?thesis using Cons.IH [OF r] by force
  qed
qed

text \<open>
  C8, amended: from a new player (sight 0, flag set), after any interleaving of draws and
  hits that returns, the sight is at least 0 and below 1.02, and at most 1 once the flag is
  cleared.  Once the flag is cleared no interleaving sets it again or raises the sight: the
  reveal plays once.  A draw with the flag set adds 0.02 while the sight is below 1, and
  otherwise sets the sight to 1 and clears the flag.
\<close>

theorem sight_within_overshoot:
  "(sight_ops el ops (p, c) = Inr (p', c') \<and> sight p = 0 \<and> is_playing_animation p
      \<longrightarrow> 0 \<le> sight p' \<and> sight p' < 1.02 \<and> (\<not> is_playing_animation p' \<longrightarrow> sight p' \<le> 1))
   \<and> (sight_ops el ops (q, c) = Inr (q', c') \<and> \<not> is_playing_animation q
      \<longrightarrow> \<not> is_playing_animation q' \<and> sight q' \<le> sight q)
   \<and> (sight r < 1 \<and> is_playing_animation r
      \<longrightarrow> sight (animate_sight r) = sight r + 0.02 \<and> is_playing_animation (animate_sight r))
   \<and> (sight r \<ge> 1 \<and> is_playing_animation r
      \<longrightarrow> sight (animate_sight r) = 1 \<and> \<not> is_playing_animation (animate_sight r))"
proof -
  have 1: "sight_ops el ops (p, c) = Inr (p', c') \<and> sight p = 0 \<and> is_playing_animation p
      \<longrightarrow> 0 \<le> sight p' \<and> sight p' < 1.02 \<and> (\<not> is_playing_animation p' \<longrightarrow> sight p' \<le> 1)"
    using sight_ops_inv [of el ops p c p' c'] by simp
  have 2: "sight_ops el ops (q, c) = Inr (q', c') \<and> \<not> is_playing_animation q
      \<longrightarrow> \<not> is_playing_animation q' \<and> sight q' \<le> sight q"
    using sight_ops_once by blast
  have 3: "sight r < 1 \<and> is_playing_animation r
      \<longrightarrow> sight (animate_sight r) = sight r + 0.02 \<and> is_playing_animation (animate_sight r)"
    "sight r \<ge> 1 \<and> is_playing_animation r
      \<longrightarrow> sight (animate_sight r) = 1 \<and> \<not> is_playing_animation (animate_sight r)"
    by (simp_all add: animate_sight_def)
  show ?thesis using 1 2 3 by blast
qed

subsection \<open>The overshoot past 1\<close>

lemma tick_cycles_ok:
  assumes "\<forall>x\<in>set cs. n_sprites (snd x) \<noteq> 0"
  shows "\<exists>cs' c'. tick_cycles el calls cs = Inr (cs', c') \<and> (\<forall>x\<in>set cs'. n_sprites (snd x) \<noteq> 0)"
  using assms
proof (induction cs arbitrary: calls)
  case Nil
  then show ?case by simp
next
  case (Cons a cs)
  obtain name c where a: "a = (name, c)" by (cases a)
  obtain t1 calls1 fired where t: "Timer_tick el calls (interval_timer c) = (t1, calls1, fired)"
    by (cases "Timer_tick el calls (interval_timer c)")
  have n: "n_sprites c \<noteq> 0" using Cons.prems a by simp
  have "\<exists>c2. (if fired then interval_end (c\<lparr>interval_timer := t1\<rparr>) else Inr (c\<lparr>interval_timer := t1\<rparr>)) = Inr c2
      \<and> n_sprites c2 \<noteq> 0"
    using n by (simp add: interval_end_def)
  then obtain c2 where c2: "(if fired then interval_end (c\<lparr>interval_timer := t1\<rparr>) else Inr (c\<lparr>interval_timer := t1\<rparr>)) = Inr c2"
    and n2: "n_sprites c2 \<noteq> 0"
    by blast
  obtain cs' c' where r: "tick_cycles el calls1 cs = Inr (cs', c')"
    and g: "\<forall>x\<in>set cs'. n_sprites (snd x) \<noteq> 0"
    using Cons.IH [of calls1] Cons.prems by auto
  have "tick_cycles el calls (a # cs) = Inr ((name, c2) # cs', c')"
    using a t c2 r by simp
  then show ?case using g n2 by simp
qed

lemma Player_draw_ok:
  assumes "\<forall>x\<in>set (sprites p). n_sprites (snd x) \<noteq> 0"
  shows "\<exists>p' c'. Player_draw el c p = Inr (p', c')
     \<and> (\<forall>x\<in>set (sprites p'). n_sprites (snd x) \<noteq> 0)"
proof -
  obtain cs' c' where r: "tick_cycles el c (sprites p) = Inr (cs', c')"
    and g: "\<forall>x\<in>set cs'. n_sprites (snd x) \<noteq> 0"
    using tick_cycles_ok [OF assms] by blast
  have "Player_draw el c p = Inr (animate_sight (p\<lparr>sprites := cs'\<rparr>), c')"
    using r by (simp add: Player_draw_def)
  then show ?thesis using g by (simp add: animate_sight_fields)
qed

lemma sight_ops_draws:
  assumes "\<forall>x\<in>set (sprites p). n_sprites (snd x) \<noteq> 0"
    and "is_playing_animation p"
    and "sight p + real n / 50 < 51 / 50"
  shows "\<exists>p' c'. sight_ops el (replicate n Draw @ ops) (p, c) = sight_ops el ops (p', c')
     \<and> (\<forall>x\<in>set (sprites p'). n_sprites (snd x) \<noteq> 0)
     \<and> is_playing_animation p' \<and> sight p' = sight p + real n / 50"
  using assms
proof (induction n arbitrary: p c)
  case 0
  then show ?case by (intro exI [of _ p] exI [of _ c]) simp
next
  case (Suc n)
  obtain p1 c1 where d: "Player_draw el c p = Inr (p1, c1)"
    and g1: "\<forall>x\<in>set (sprites p1). n_sprites (snd x) \<noteq> 0"
    using Player_draw_ok [OF Suc.prems(1)] by blast
  have e: "real (Suc n) / 50 = real n / 50 + 1 / 50" "0 \<le> real n / 50"
    by (simp_all add: add_divide_distrib)
  have lt: "sight p < 1" using Suc.prems(3) e by linarith
  have s1: "sight p1 = sight p + 1 / 50" "is_playing_animation p1"
    using Player_draw_sight [OF d] Suc.prems(2) lt by (simp_all add: animate_sight_def)
  have b: "sight p1 + real n / 50 < 51 / 50"
    using Suc.prems(3) s1 e by linarith
  obtain p' c' where r: "sight_ops el (replicate n Draw @ ops) (p1, c1) = sight_ops el ops (p', c')"
    and g: "\<forall>x\<in>set (sprites p'). n_sprites (snd x) \<noteq> 0"
    and f: "is_playing_animation p'" and s: "sight p' = sight p1 + real n / 50"
    using Suc.IH [OF g1 s1(2) b] by blast
  have "sight_ops el (replicate (Suc n) Draw @ ops) (p, c) = sight_ops el ops (p', c')"
    using d r by simp
  moreover have "sight p' = sight p + real (Suc n) / 50"
    using s s1 e by linarith
  ultimately show ?case using g f by blast
qed

lemma player_sprites_ok: "\<forall>x\<in>set player_sprites. n_sprites (snd x) \<noteq> 0"
  by (simp add: player_sprites_def SpriteCycle_init_def)

text \<open>
  C8, as stated, fails: five draws, one hit, and 48 more draws take the sight of a new
  player from 0 to 0.1, to 0.05, and then to 1.01.  The draw that adds 0.02 to 0.99 does
  not clamp; only the next draw sets the sight back to 1.
\<close>

theorem sight_overshoots_one:
  "\<not> isl (sight_ops (\<lambda>k. 16) (replicate 5 Draw @ Hit # replicate 48 Draw)
            (Player_init 200 200 \<lparr>vx = 0.25, vy = 0.25\<rparr>, 0))
   \<and> sight (fst (projr (sight_ops (\<lambda>k. 16) (replicate 5 Draw @ Hit # replicate 48 Draw)
            (Player_init 200 200 \<lparr>vx = 0.25, vy = 0.25\<rparr>, 0)))) = 1.01"
proof -
  let ?p = "Player_init 200 200 \<lparr>vx = 0.25, vy = 0.25\<rparr>"
  let ?el = "\<lambda>k::nat. 16::nat"
  have g0: "\<forall>x\<in>set (sprites ?p). n_sprites (snd x) \<noteq> 0"
    using player_sprites_ok by (simp add: Player_init_def)
  have f0: "is_playing_animation ?p" "sight ?p = 0"
    by (simp_all add: Player_init_def)
  have b0: "sight ?p + real 5 / 50 < 51 / 50" using f0 by simp
  obtain p1 c1 where r1: "sight_ops ?el (replicate 5 Draw @ Hit # replicate 48 Draw) (?p, 0)
        = sight_ops ?el (Hit # replicate 48 Draw) (p1, c1)"
    and g1: "\<forall>x\<in>set (sprites p1). n_sprites (snd x) \<noteq> 0"
    and f1: "is_playing_animation p1" and s1: "sight p1 = sight ?p + real 5 / 50"
    using sight_ops_draws [OF g0 f0(1) b0, of ?el "Hit # replicate 48 Draw" 0] by blast
  have s1': "sight p1 = 0.1" using s1 f0 by simp
  have h: "sight (bullet_hit p1) = 0.05" "is_playing_animation (bullet_hit p1)"
    "sprites (bullet_hit p1) = sprites p1"
    using s1' f1 by (simp_all add: bullet_hit_def)
  have b2: "sight (bullet_hit p1) + real 48 / 50 < 51 / 50" using h by simp
  have g2: "\<forall>x\<in>set (sprites (bullet_hit p1)). n_sprites (snd x) \<noteq> 0"
    using g1 h by simp
  obtain p3 c3 where r3: "sight_ops ?el (replicate 48 Draw @ []) (bullet_hit p1, c1)
        = sight_ops ?el [] (p3, c3)"
    and s3: "sight p3 = sight (bullet_hit p1) + real 48 / 50"
    using sight_ops_draws [OF g2 h(2) b2, of ?el "[]" c1] by blast
  have "sight_ops ?el (replicate 5 Draw @ Hit # replicate 48 Draw) (?p, 0) = Inr (p3, c3)"
    using r1 r3 by simp
  moreover have "sight p3 = 1.01" using s3 h by simp
  ultimately show ?thesis by simp
qed

theorem sight_within_overshoot_witness:
  "sight_ops (\<lambda>k. 16) [Draw, Hit] (Player_init 200 200 \<lparr>vx = 0.25, vy = 0.25\<rparr>, 0)
     = Inr (projr (sight_ops (\<lambda>k. 16) [Draw, Hit] (Player_init 200 200 \<lparr>vx = 0.25, vy = 0.25\<rparr>, 0)))
   \<and> sight (Player_init 200 200 \<lparr>vx = 0.25, vy = 0.25\<rparr>) = 0
   \<and> is_playing_animation (Player_init 200 200 \<lparr>vx = 0.25, vy = 0.25\<rparr>)
   \<and> sight (fst (projr (sight_ops (\<lambda>k. 16) [Draw, Hit] (Player_init 200 200 \<lparr>vx = 0.25, vy = 0.25\<rparr>, 0)))) < 1.02
   \<and> 0 \<le> sight (fst (projr (sight_ops (\<lambda>k. 16) [Draw, Hit] (Player_init 200 200 \<lparr>vx = 0.25, vy = 0.25\<rparr>, 0))))"
proof -
  let ?p = "Player_init 200 200 \<lparr>vx = 0.25, vy = 0.25\<rparr>"
  let ?R = "sight_ops (\<lambda>k. 16) [Draw, Hit] (?p, 0)"
  have g0: "\<forall>x\<in>set (sprites ?p). n_sprites (snd x) \<noteq> 0"
    using player_sprites_ok by (simp add: Player_init_def)
  obtain p1 c1 where d: "Player_draw (\<lambda>k. 16) 0 ?p = Inr (p1, c1)"
    using Player_draw_ok [OF g0] by blast
  have R: "?R = Inr (bullet_hit p1, c1)" using d by simp
  then have e: "?R = Inr (fst (projr ?R), snd (projr ?R))" by simp
  have f0: "sight ?p = 0" "is_playing_animation ?p"
    by (simp_all add: Player_init_def)
  show ?thesis
    using e f0 sight_within_overshoot
      [of "\<lambda>k. 16" "[Draw, Hit]" ?p 0 "fst (projr ?R)" "snd (projr ?R)"]
    by simp
qed

section \<open>The pass over the projectiles\<close>

text \<open>
  C4 fails on the code.  In \<open>two_hits\<close> both live projectiles overlap the player.  The
  pass tests projectile 1, the reaction removes it from the list the loop runs over, the
  loop's index 1 is then past the end of that list, and the pass ends: projectile 2 is
  never tested in this frame and stays in every roster, and the sight drops once only.
\<close>

theorem second_projectile_skipped:
  "bullets two_hits = [1, 2]
   \<and> colliderect (hitbox (player two_hits)) (b_hitbox (bullet_objs two_hits 1))
   \<and> colliderect (hitbox (player two_hits)) (b_hitbox (bullet_objs two_hits 2))
   \<and> \<not> isl (bullet_collisions 0 [] two_hits)
   \<and> fst (projr (bullet_collisions 0 [] two_hits)) = [1]
   \<and> bullets (snd (projr (bullet_collisions 0 [] two_hits))) = [2]
   \<and> movables (snd (projr (bullet_collisions 0 [] two_hits))) = [MPlayer, MBullet 2]
   \<and> drawables (snd (projr (bullet_collisions 0 [] two_hits))) = [DPlayer, DClock 0, DBullet 2]
   \<and> sight (player (snd (projr (bullet_collisions 0 [] two_hits)))) = 0.45"
  by code_simp

section \<open>What the steps of a frame leave alone\<close>

lemma fold_keeps:
  assumes "\<And>a s. h (f a s) = h s"
  shows "h (fold f xs s) = h s"
  by (induction xs arbitrary: s) (simp_all add: assms)

lemma wall_collisions_keeps:
  "game_state (wall_collisions g) = game_state g"
  "clock_calls (wall_collisions g) = clock_calls g"
  "drawables (wall_collisions g) = drawables g"
  "sprites (player (wall_collisions g)) = sprites (player g)"
  unfolding wall_collisions_def
  by (rule fold_keeps, simp add: on_player_wall_collide_def)+

lemma move_sprites: "sprites (move p) = sprites p"
  by (simp add: move_def Let_def case_prod_beta)

lemma key_move_sprites: "sprites (key_move ks p) = sprites p"
  by (simp add: key_move_def Let_def case_prod_beta)

lemma move_all_keeps:
  "game_state (move_all g) = game_state g"
  "clock_calls (move_all g) = clock_calls g"
  "drawables (move_all g) = drawables g"
  "sprites (player (move_all g)) = sprites (player g)"
  unfolding move_all_def
  by (rule fold_keeps, simp add: move_movable_def move_sprites split: movable.splits)+

lemma draw_keeps:
  assumes "draw ev d g = Inr g1"
  shows "game_state g1 = game_state g"
  using assms
  by (auto simp: draw_def split: drawable.splits sum.splits prod.splits)

lemma draw_list_keeps:
  assumes "draw_list ev ds g = Inr g1"
  shows "game_state g1 = game_state g"
  using assms
proof (induction ds arbitrary: g)
  case Nil
  then show ?case by simp
next
  case (Cons d ds)
  then obtain g2 where a: "draw ev d g = Inr g2" and b: "draw_list ev ds g2 = Inr g1"
    by (auto split: sum.splits)
  show ?case using Cons.IH [OF b] draw_keeps [OF a] by simp
qed

lemma on_player_bullet_collide_keeps:
  assumes "on_player_bullet_collide b g = Inr g1"
  shows "game_state g1 = game_state g" and "clock_calls g1 = clock_calls g"
  using assms
  by (auto simp: on_player_bullet_collide_def split: sum.splits)

lemma bullet_collisions_hit:
  assumes "i < length (bullets g)"
    and "colliderect (hitbox (player g)) (b_hitbox (bullet_objs g (bullets g ! i)))"
  shows "bullet_collisions i seen g =
     (case on_player_bullet_collide (bullets g ! i) g of
        Inl e \<Rightarrow> Inl e
      | Inr g1 \<Rightarrow> bullet_collisions (i + 1) (seen @ [bullets g ! i]) g1)"
  using assms by (subst bullet_collisions.simps) (simp add: Let_def)

lemma bullet_collisions_miss:
  assumes "i < length (bullets g)"
    and "\<not> colliderect (hitbox (player g)) (b_hitbox (bullet_objs g (bullets g ! i)))"
  shows "bullet_collisions i seen g = bullet_collisions (i + 1) (seen @ [bullets g ! i]) g"
  using assms by (subst bullet_collisions.simps) (simp add: Let_def)

lemma bullet_collisions_done:
  assumes "\<not> i < length (bullets g)"
  shows "bullet_collisions i seen g = Inr (seen, g)"
  using assms by (subst bullet_collisions.simps) (simp add: Let_def)

lemma bullet_collisions_keeps:
  assumes "bullet_collisions i seen g = Inr (seen1, g1)"
  shows "game_state g1 = game_state g \<and> clock_calls g1 = clock_calls g"
  using assms
proof (induction i seen g rule: bullet_collisions.induct)
  case (1 i seen g)
  show ?case
  proof (cases "i < length (bullets g)")
    case False
    then show ?thesis using "1.prems" by (simp add: bullet_collisions_done)
  next
    case True
    note lt = True
    let ?b = "bullets g ! i"
    show ?thesis
    proof (cases "colliderect (hitbox (player g)) (b_hitbox (bullet_objs g ?b))")
      case True
      from "1.prems" obtain g2 where a: "on_player_bullet_collide ?b g = Inr g2"
        and b: "bullet_collisions (i + 1) (seen @ [?b]) g2 = Inr (seen1, g1)"
        unfolding bullet_collisions_hit [OF lt True] by (auto split: sum.splits)
      show ?thesis
        using "1.IH"(1) [OF lt refl True a b] on_player_bullet_collide_keeps [OF a] by simp
    next
      case False
      from "1.prems" have b: "bullet_collisions (i + 1) (seen @ [?b]) g = Inr (seen1, g1)"
        unfolding bullet_collisions_miss [OF lt False] .
      show ?thesis using "1.IH"(2) [OF lt refl False b] by simp
    qed
  qed
qed

section \<open>Counting the pacing calls\<close>

lemma tick_cycles_calls:
  assumes "tick_cycles el calls cs = Inr (cs1, calls1)"
  shows "calls1 = calls + length (filter (\<lambda>x. 0 < time (interval_timer (snd x))) cs)"
  using assms
proof (induction cs arbitrary: calls cs1 calls1)
  case Nil
  then show ?case by simp
next
  case (Cons a cs)
  obtain name c where a: "a = (name, c)" by (cases a)
  obtain t1 k fired where t: "Timer_tick el calls (interval_timer c) = (t1, k, fired)"
    by (cases "Timer_tick el calls (interval_timer c)")
  have k: "k = calls + (if 0 < time (interval_timer c) then 1 else 0)"
    using t by (auto simp: Timer_tick_def split: if_splits)
  from Cons.prems obtain cs2 where r: "tick_cycles el k cs = Inr (cs2, calls1)"
    using a t by (auto simp: Let_def split: sum.splits if_splits)
  show ?case using Cons.IH [OF r] k a by simp
qed

lemma Player_draw_calls:
  assumes "Player_draw el c p = Inr (p1, c1)"
  shows "c1 = c + running_cycles p"
  using assms tick_cycles_calls
  by (fastforce simp: Player_draw_def running_cycles_def split: sum.splits)

lemma draw_other: "d \<noteq> DPlayer \<Longrightarrow> draw ev d g = Inr g"
  by (cases d) (simp_all add: draw_def)

lemma draw_list_no_player: "DPlayer \<notin> set ds \<Longrightarrow> draw_list ev ds g = Inr g"
  by (induction ds) (simp_all add: draw_other [OF not_sym])

lemma draw_player_calls:
  assumes "draw ev DPlayer g = Inr g1"
  shows "clock_calls g1 = clock_calls g + running_cycles (player g)"
  using assms Player_draw_calls
  by (fastforce simp: draw_def split: sum.splits)

lemma draw_list_calls:
  assumes "count_list ds DPlayer = 1" and "draw_list ev ds g = Inr g1"
  shows "clock_calls g1 = clock_calls g + running_cycles (player g)"
  using assms
proof (induction ds arbitrary: g)
  case Nil
  then show ?case by simp
next
  case (Cons d ds)
  from Cons.prems(2) obtain g2 where a: "draw ev d g = Inr g2"
    and b: "draw_list ev ds g2 = Inr g1"
    by (auto split: sum.splits)
  show ?case
  proof (cases "d = DPlayer")
    case True
    with Cons.prems(1) have "DPlayer \<notin> set ds"
      by (simp add: count_list_0_iff)
    then have "g1 = g2" using b by (simp add: draw_list_no_player)
    then show ?thesis using a True draw_player_calls by simp
  next
    case False
    then have "g2 = g" using a by (simp add: draw_other)
    moreover have "count_list ds DPlayer = 1" using Cons.prems(1) False by simp
    ultimately show ?thesis using Cons.IH b by simp
  qed
qed

lemma count_walls: "count_list (map DWall ns) DPlayer = 0"
  by (induction ns) simp_all

lemma change_state_keeps:
  "clock_calls (change_state g) = clock_calls g"
  "sprites (player (change_state g)) = sprites (player g)"
  "bullet_timer (change_state g) = bullet_timer g"
  "count_list (drawables (change_state g)) DPlayer = 1"
  by (simp_all add: change_state_def on_state_change_def Let_def count_walls)

lemma tick_timer_calls:
  "clock_calls (tick_timer ev g) = clock_calls g
     + (case timer g of CTimer t \<Rightarrow> if 0 < time t then 1 else 0 | CStopwatch s \<Rightarrow> 1)"
  by (simp add: tick_timer_def Timer_tick_def Stopwatch_tick_def change_state_keeps Let_def
      split: clock.splits)

lemma tick_timer_keeps:
  "sprites (player (tick_timer ev g)) = sprites (player g)"
  "bullet_timer (tick_timer ev g) = bullet_timer g"
  "count_list (drawables g) DPlayer = 1 \<Longrightarrow> count_list (drawables (tick_timer ev g)) DPlayer = 1"
  by (simp_all add: tick_timer_def Timer_tick_def Stopwatch_tick_def change_state_keeps Let_def
      split: clock.splits)

lemma tick_timer_state:
  "game_state (tick_timer ev g) = (if countdown_completes ev g then Some 2 else game_state g)"
  by (simp add: tick_timer_def countdown_completes_def Timer_tick_def Stopwatch_tick_def
      change_state_def on_state_change_def Let_def split: clock.splits)

lemma tick_bullet_timer_keeps:
  "clock_calls (tick_bullet_timer ev g) = clock_calls g + (if 0 < time (bullet_timer g) then 1 else 0)"
  "game_state (tick_bullet_timer ev g) = game_state g"
  "sprites (player (tick_bullet_timer ev g)) = sprites (player g)"
  "count_list (drawables (tick_bullet_timer ev g)) DPlayer = count_list (drawables g) DPlayer"
  by (simp_all add: tick_bullet_timer_def Timer_tick_def spawn_bullet_def Let_def)

section \<open>The stages of a frame\<close>

lemma frame_update_stages:
  obtains g4 g5 g6 g7 where
    "g4 = (if fst (check_quit (pressed inp) (late_arrivals inp))
           then g\<lparr>event_queue := snd (check_quit (pressed inp) (late_arrivals inp)),
                  game_state := None\<rparr>
           else g\<lparr>event_queue := snd (check_quit (pressed inp) (late_arrivals inp))\<rparr>)"
    and "g5 = tick_timer ev g4"
    and "g6 = (if game_state g5 = Some 1 then tick_bullet_timer ev g5 else g5)"
    and "g7 = (if game_state g6 = Some 2 then wall_collisions g6 else g6)"
    and "frame_update ev inp g = move_all (g7\<lparr>player := key_move (pressed inp) (player g7)\<rparr>)"
proof -
  show thesis
    by (rule that [OF refl refl refl refl])
      (simp add: frame_update_def Let_def case_prod_beta)
qed

lemma frame_finish_calls: "clock_calls (frame_finish g) = clock_calls g"
  by (simp add: frame_finish_def end_collision_def on_player_end_collide_def Let_def)

lemma frame_finish_none: "game_state g = None \<Longrightarrow> frame_finish g = g"
  by (simp add: frame_finish_def)

lemma frame_results:
  assumes "frame ev inp g = Inr g'"
  obtains g1 seen g2 where "draw_all ev (frame_update ev inp g) = Inr g1"
    and "bullet_collisions 0 [] g1 = Inr (seen, g2)" and "g' = frame_finish g2"
  using assms by (auto simp: frame_def split: sum.splits prod.splits)

lemma running_cycles_cong: "sprites p = sprites p' \<Longrightarrow> running_cycles p = running_cycles p'"
  by (simp add: running_cycles_def)

text \<open>
  C10, amended: in a frame that returns, from a state whose drawables hold the player
  once, the pacing call is made once per ticked timer object: once for the phase clock if
  it is a stopwatch or a timer with time left, once for the spawn timer if it is ticked
  (phase 1, no quit, the countdown not completing in this frame) and has time left, and
  once for every sprite cycle of the player whose interval timer has time left.
\<close>

theorem pacing_calls_per_frame:
  assumes "frame ev inp g = Inr g'" and "count_list (drawables g) DPlayer = 1"
  shows "clock_calls g' = clock_calls g
     + (case timer g of CTimer t \<Rightarrow> if 0 < time t then 1 else 0 | CStopwatch s \<Rightarrow> 1)
     + (if game_state g = Some 1 \<and> \<not> fst (check_quit (pressed inp) (late_arrivals inp))
           \<and> \<not> countdown_completes ev g \<and> 0 < time (bullet_timer g)
        then 1 else 0)
     + running_cycles (player g)"
proof -
  obtain g4 g5 g6 g7 where
    g4: "g4 = (if fst (check_quit (pressed inp) (late_arrivals inp))
           then g\<lparr>event_queue := snd (check_quit (pressed inp) (late_arrivals inp)),
                  game_state := None\<rparr>
           else g\<lparr>event_queue := snd (check_quit (pressed inp) (late_arrivals inp))\<rparr>)"
    and g5: "g5 = tick_timer ev g4"
    and g6: "g6 = (if game_state g5 = Some 1 then tick_bullet_timer ev g5 else g5)"
    and g7: "g7 = (if game_state g6 = Some 2 then wall_collisions g6 else g6)"
    and fu: "frame_update ev inp g = move_all (g7\<lparr>player := key_move (pressed inp) (player g7)\<rparr>)"
    using frame_update_stages [where inp = inp and g = g and ev = ev] by blast
  obtain g1 seen g2 where d: "draw_all ev (frame_update ev inp g) = Inr g1"
    and b: "bullet_collisions 0 [] g1 = Inr (seen, g2)" and f: "g' = frame_finish g2"
    using frame_results [OF assms(1)] by blast
  have k4: "timer g4 = timer g" "clock_calls g4 = clock_calls g" "bullet_timer g4 = bullet_timer g"
    "sprites (player g4) = sprites (player g)" "drawables g4 = drawables g"
    "game_state g4 = (if fst (check_quit (pressed inp) (late_arrivals inp)) then None else game_state g)"
    by (simp_all add: g4)
  have cc: "countdown_completes ev g4 = countdown_completes ev g"
    by (simp add: countdown_completes_def k4 split: clock.splits)
  have k5: "clock_calls g5 = clock_calls g
       + (case timer g of CTimer t \<Rightarrow> if 0 < time t then 1 else 0 | CStopwatch s \<Rightarrow> 1)"
    "sprites (player g5) = sprites (player g)" "bullet_timer g5 = bullet_timer g"
    "count_list (drawables g5) DPlayer = 1"
    "game_state g5 = (if countdown_completes ev g then Some 2 else game_state g4)"
    using assms(2) by (simp_all add: g5 tick_timer_calls tick_timer_keeps tick_timer_state k4 cc)
  have s5: "game_state g5 = Some 1 \<longleftrightarrow>
      game_state g = Some 1 \<and> \<not> fst (check_quit (pressed inp) (late_arrivals inp))
        \<and> \<not> countdown_completes ev g"
    by (simp add: k5 k4)
  have k6: "clock_calls g6 = clock_calls g5
       + (if game_state g = Some 1 \<and> \<not> fst (check_quit (pressed inp) (late_arrivals inp))
             \<and> \<not> countdown_completes ev g \<and> 0 < time (bullet_timer g)
          then 1 else 0)"
    "sprites (player g6) = sprites (player g)" "count_list (drawables g6) DPlayer = 1"
    using s5 by (auto simp: g6 tick_bullet_timer_keeps k5)
  have k7: "clock_calls g7 = clock_calls g6" "sprites (player g7) = sprites (player g)"
    "count_list (drawables g7) DPlayer = 1"
    by (simp_all add: g7 wall_collisions_keeps k6)
  have k9: "clock_calls (frame_update ev inp g) = clock_calls g7"
    "sprites (player (frame_update ev inp g)) = sprites (player g)"
    "count_list (drawables (frame_update ev inp g)) DPlayer = 1"
    by (simp_all add: fu move_all_keeps key_move_sprites k7)
  have "clock_calls g1 = clock_calls (frame_update ev inp g)
      + running_cycles (player (frame_update ev inp g))"
    using draw_list_calls [OF k9(3)] d by (simp add: draw_all_def)
  moreover have "running_cycles (player (frame_update ev inp g)) = running_cycles (player g)"
    using k9(2) by (rule running_cycles_cong)
  moreover have "clock_calls g' = clock_calls g1"
    using bullet_collisions_keeps [OF b] f by (simp add: frame_finish_calls)
  ultimately show ?thesis
    using k9(1) k7(1) k6(1) k5(1) by simp
qed

text \<open>
  C10, as stated, fails: the first frame of the game makes eleven pacing calls, one for the
  countdown timer, one for the spawn timer and one for each of the nine sprite cycles of
  the player.
\<close>

theorem frame_paces_per_timer:
  "\<not> isl (frame (steady_env 16) idle_input initial_game)
   \<and> clock_calls initial_game = 0
   \<and> clock_calls (projr (frame (steady_env 16) idle_input initial_game)) = 11"
  by code_simp

theorem pacing_calls_per_frame_witness:
  "frame (steady_env 16) idle_input initial_game
     = Inr (projr (frame (steady_env 16) idle_input initial_game))
   \<and> count_list (drawables initial_game) DPlayer = 1
   \<and> running_cycles (player initial_game) = 9
   \<and> clock_calls (projr (frame (steady_env 16) idle_input initial_game))
       = clock_calls initial_game + 1 + 1 + running_cycles (player initial_game)"
proof -
  have "\<not> isl (frame (steady_env 16) idle_input initial_game)"
    by code_simp
  then have a: "frame (steady_env 16) idle_input initial_game
     = Inr (projr (frame (steady_env 16) idle_input initial_game))"
    by (cases "frame (steady_env 16) idle_input initial_game") simp_all
  have b: "count_list (drawables initial_game) DPlayer = 1"
    by (simp add: initial_game_def)
  have c: "timer initial_game = CTimer (Timer_init 20)" "time (Timer_init 20) = 20"
    "game_state initial_game = Some 1" "time (bullet_timer initial_game) = 2"
    by (simp_all add: initial_game_def Timer_init_def)
  have d: "\<not> fst (check_quit (pressed idle_input) (late_arrivals idle_input))"
    "\<not> countdown_completes (steady_env 16) initial_game"
    "running_cycles (player initial_game) = 9"
    by code_simp+
  show ?thesis
    using a b d(3) pacing_calls_per_frame [OF a b] c d(1,2) by simp
qed

section \<open>Quitting\<close>

lemma Timer_tick_calls:
  "fst (snd (Timer_tick el c t)) = c + (if 0 < time t then 1 else 0)"
  by (simp add: Timer_tick_def)

lemma tick_timer_plain:
  assumes "\<not> countdown_completes ev g"
  shows "tick_timer ev g =
     g\<lparr>timer := (case timer g of
                    CTimer t \<Rightarrow> CTimer (fst (Timer_tick (elapsed ev) (clock_calls g) t))
                  | CStopwatch s \<Rightarrow> CStopwatch (fst (Stopwatch_tick (elapsed ev) (clock_calls g) s))),
        clock_calls := clock_calls g
          + (case timer g of CTimer t \<Rightarrow> if 0 < time t then 1 else 0 | CStopwatch s \<Rightarrow> 1)\<rparr>"
  using assms
  by (cases "timer g")
    (simp_all add: tick_timer_def countdown_completes_def Timer_tick_calls Stopwatch_tick_def
      Let_def case_prod_beta)

lemma frame_update_escape:
  assumes "pressed inp K_ESCAPE"
  shows "frame_update ev inp g = frame_update ev inp (g\<lparr>game_state := None\<rparr>)"
  using assms by (simp add: frame_update_def check_quit_def Let_def)

lemma frame_update_quit:
  assumes "pressed inp K_ESCAPE" and "\<not> countdown_completes ev g"
  shows "frame_update ev inp g =
     move_all ((tick_timer ev (g\<lparr>event_queue := late_arrivals inp, game_state := None\<rparr>))
                 \<lparr>player := key_move (pressed inp) (player g)\<rparr>)"
proof -
  let ?g4 = "g\<lparr>event_queue := late_arrivals inp, game_state := None\<rparr>"
  have c: "\<not> countdown_completes ev ?g4"
    using assms(2) by (simp add: countdown_completes_def split: clock.splits)
  have s: "game_state (tick_timer ev ?g4) = None" "player (tick_timer ev ?g4) = player g"
    by (simp_all add: tick_timer_plain [OF c])
  obtain g4 g5 g6 g7 where
    g4: "g4 = (if fst (check_quit (pressed inp) (late_arrivals inp))
           then g\<lparr>event_queue := snd (check_quit (pressed inp) (late_arrivals inp)),
                  game_state := None\<rparr>
           else g\<lparr>event_queue := snd (check_quit (pressed inp) (late_arrivals inp))\<rparr>)"
    and g5: "g5 = tick_timer ev g4"
    and g6: "g6 = (if game_state g5 = Some 1 then tick_bullet_timer ev g5 else g5)"
    and g7: "g7 = (if game_state g6 = Some 2 then wall_collisions g6 else g6)"
    and fu: "frame_update ev inp g = move_all (g7\<lparr>player := key_move (pressed inp) (player g7)\<rparr>)"
    using frame_update_stages [where inp = inp and g = g and ev = ev] by blast
  have "g4 = ?g4" using assms(1) by (simp add: g4 check_quit_def)
  then have "g7 = tick_timer ev ?g4" using s by (simp add: g7 g6 g5)
  then show ?thesis using fu s by simp
qed

lemma move_list_no_player:
  "MPlayer \<notin> set ms \<Longrightarrow> player (fold move_movable ms g) = player g"
  by (induction ms arbitrary: g) (auto simp: move_movable_def split: movable.splits)

lemma move_list_player:
  "count_list ms MPlayer = 1 \<Longrightarrow> player (fold move_movable ms g) = move (player g)"
proof (induction ms arbitrary: g)
  case Nil
  then show ?case by simp
next
  case (Cons m ms)
  show ?case
  proof (cases m)
    case MPlayer
    with Cons.prems have n: "MPlayer \<notin> set ms" by (simp add: count_list_0_iff)
    have "player (fold move_movable (m # ms) g) = player (move_movable MPlayer g)"
      using MPlayer move_list_no_player [OF n] by simp
    also have "\<dots> = move (player g)" by (simp add: move_movable_def)
    finally show ?thesis .
  next
    case (MBullet k)
    with Cons.prems have c: "count_list ms MPlayer = 1" by simp
    have "player (fold move_movable (m # ms) g) = move (player (move_movable (MBullet k) g))"
      using MBullet Cons.IH [OF c] by simp
    also have "\<dots> = move (player g)" by (simp add: move_movable_def)
    finally show ?thesis .
  qed
qed

lemma move_all_rest:
  "timer (move_all g) = timer g" "bullets (move_all g) = bullets g"
  unfolding move_all_def
  by (rule fold_keeps, simp add: move_movable_def split: movable.splits)+

lemma draw_keeps_body:
  assumes "draw ev d g = Inr g1"
  shows "p_x (player g1) = p_x (player g) \<and> p_y (player g1) = p_y (player g)
     \<and> velocity_vector (player g1) = velocity_vector (player g)
     \<and> hitbox (player g1) = hitbox (player g) \<and> timer g1 = timer g \<and> bullets g1 = bullets g"
  using assms
  by (auto simp: draw_def Player_draw_def animate_sight_def split: drawable.splits sum.splits prod.splits)

lemma draw_list_keeps_body:
  assumes "draw_list ev ds g = Inr g1"
  shows "p_x (player g1) = p_x (player g) \<and> p_y (player g1) = p_y (player g)
     \<and> velocity_vector (player g1) = velocity_vector (player g)
     \<and> hitbox (player g1) = hitbox (player g) \<and> timer g1 = timer g \<and> bullets g1 = bullets g"
  using assms
proof (induction ds arbitrary: g)
  case Nil
  then show ?case by simp
next
  case (Cons d ds)
  then obtain g2 where a: "draw ev d g = Inr g2" and b: "draw_list ev ds g2 = Inr g1"
    by (auto split: sum.splits)
  show ?case using Cons.IH [OF b] draw_keeps_body [OF a] by simp
qed

lemma draw_player_sight:
  assumes "draw ev DPlayer g = Inr g1"
  shows "sight (player g1) = sight (animate_sight (player g))
     \<and> is_playing_animation (player g1) = is_playing_animation (animate_sight (player g))"
  using assms
  by (auto simp: draw_def Player_draw_def animate_sight_def split: sum.splits prod.splits)

lemma draw_list_sight:
  assumes "count_list ds DPlayer = 1" and "draw_list ev ds g = Inr g1"
  shows "sight (player g1) = sight (animate_sight (player g))
     \<and> is_playing_animation (player g1) = is_playing_animation (animate_sight (player g))"
  using assms
proof (induction ds arbitrary: g)
  case Nil
  then show ?case by simp
next
  case (Cons d ds)
  from Cons.prems(2) obtain g2 where a: "draw ev d g = Inr g2"
    and b: "draw_list ev ds g2 = Inr g1"
    by (auto split: sum.splits)
  show ?case
  proof (cases "d = DPlayer")
    case True
    with Cons.prems(1) have "DPlayer \<notin> set ds"
      by (simp add: count_list_0_iff)
    then have "g1 = g2" using b by (simp add: draw_list_no_player)
    then show ?thesis using a True draw_player_sight by simp
  next
    case False
    then have "g2 = g" using a by (simp add: draw_other)
    moreover have "count_list ds DPlayer = 1" using Cons.prems(1) False by simp
    ultimately show ?thesis using Cons.IH b by simp
  qed
qed

lemma on_player_bullet_collide_keeps_body:
  assumes "on_player_bullet_collide b g = Inr g1"
  shows "p_x (player g1) = p_x (player g) \<and> p_y (player g1) = p_y (player g)
     \<and> velocity_vector (player g1) = velocity_vector (player g)
     \<and> hitbox (player g1) = hitbox (player g) \<and> timer g1 = timer g"
  using assms
  by (auto simp: on_player_bullet_collide_def bullet_hit_def split: sum.splits)

lemma bullet_collisions_keeps_body:
  assumes "bullet_collisions i seen g = Inr (seen1, g1)"
  shows "p_x (player g1) = p_x (player g) \<and> p_y (player g1) = p_y (player g)
     \<and> velocity_vector (player g1) = velocity_vector (player g)
     \<and> hitbox (player g1) = hitbox (player g) \<and> timer g1 = timer g"
  using assms
proof (induction i seen g rule: bullet_collisions.induct)
  case (1 i seen g)
  show ?case
  proof (cases "i < length (bullets g)")
    case False
    then show ?thesis using "1.prems" by (simp add: bullet_collisions_done)
  next
    case True
    note lt = True
    let ?b = "bullets g ! i"
    show ?thesis
    proof (cases "colliderect (hitbox (player g)) (b_hitbox (bullet_objs g ?b))")
      case True
      from "1.prems" obtain g2 where a: "on_player_bullet_collide ?b g = Inr g2"
        and b: "bullet_collisions (i + 1) (seen @ [?b]) g2 = Inr (seen1, g1)"
        unfolding bullet_collisions_hit [OF lt True] by (auto split: sum.splits)
      show ?thesis
        using "1.IH"(1) [OF lt refl True a b] on_player_bullet_collide_keeps_body [OF a]
        by simp
    next
      case False
      from "1.prems" have b: "bullet_collisions (i + 1) (seen @ [?b]) g = Inr (seen1, g1)"
        unfolding bullet_collisions_miss [OF lt False] .
      show ?thesis using "1.IH"(2) [OF lt refl False b] by simp
    qed
  qed
qed

lemma move_all_sight:
  "sight (player (move_all g)) = sight (player g)"
  "is_playing_animation (player (move_all g)) = is_playing_animation (player g)"
  unfolding move_all_def
  by (rule fold_keeps,
      simp add: move_movable_def move_def Let_def case_prod_beta split: movable.splits)+

lemma key_move_sight:
  "sight (key_move ks p) = sight p"
  "is_playing_animation (key_move ks p) = is_playing_animation p"
  by (simp_all add: key_move_def Let_def case_prod_beta)

lemma animate_sight_cong:
  assumes "sight p = sight p'" and "is_playing_animation p = is_playing_animation p'"
  shows "sight (animate_sight p) = sight (animate_sight p')"
    and "is_playing_animation (animate_sight p) = is_playing_animation (animate_sight p')"
  using assms by (simp_all add: animate_sight_def)

lemma escape_frame_effects:
  assumes "pressed inp K_ESCAPE" and "frame ev inp g = Inr g'"
    and "\<not> countdown_completes ev g"
  shows "fst (check_quit (pressed inp) (late_arrivals inp))
   \<and> frame ev inp g = frame ev inp (g\<lparr>game_state := None\<rparr>)
   \<and> frame_update ev inp g =
       move_all ((tick_timer ev (g\<lparr>event_queue := late_arrivals inp, game_state := None\<rparr>))
                   \<lparr>player := key_move (pressed inp) (player g)\<rparr>)
   \<and> frame ev inp g =
       (case draw_all ev (frame_update ev inp g) of
          Inl e \<Rightarrow> Inl e
        | Inr g1 \<Rightarrow>
            (case bullet_collisions 0 [] g1 of Inl e \<Rightarrow> Inl e | Inr (seen, g2) \<Rightarrow> Inr g2))
   \<and> timer g' =
       (case timer g of
          CTimer t \<Rightarrow> CTimer (fst (Timer_tick (elapsed ev) (clock_calls g) t))
        | CStopwatch s \<Rightarrow> CStopwatch (fst (Stopwatch_tick (elapsed ev) (clock_calls g) s)))
   \<and> (count_list (drawables g) DPlayer = 1 \<longrightarrow>
        clock_calls g' = clock_calls g
          + (case timer g of CTimer t \<Rightarrow> if 0 < time t then 1 else 0 | CStopwatch s \<Rightarrow> 1)
          + running_cycles (player g))
   \<and> (count_list (movables g) MPlayer = 1 \<longrightarrow>
        p_x (player g') = p_x (move (key_move (pressed inp) (player g)))
        \<and> p_y (player g') = p_y (move (key_move (pressed inp) (player g)))
        \<and> velocity_vector (player g') = velocity_vector (move (key_move (pressed inp) (player g)))
        \<and> hitbox (player g') = hitbox (move (key_move (pressed inp) (player g))))
   \<and> (count_list (drawables g) DPlayer = 1 \<and> bullets g = [] \<longrightarrow>
        sight (player g') = sight (animate_sight (player g))
        \<and> is_playing_animation (player g') = is_playing_animation (animate_sight (player g)))
   \<and> game_state g' = None
   \<and> run ev (inp2 # inps) g' = Inr g'"
proof -
  let ?g4 = "g\<lparr>event_queue := late_arrivals inp, game_state := None\<rparr>"
  let ?g8 = "(tick_timer ev ?g4)\<lparr>player := key_move (pressed inp) (player g)\<rparr>"
  let ?U = "frame_update ev inp g"
  let ?T = "case timer g of
          CTimer t \<Rightarrow> CTimer (fst (Timer_tick (elapsed ev) (clock_calls g) t))
        | CStopwatch s \<Rightarrow> CStopwatch (fst (Stopwatch_tick (elapsed ev) (clock_calls g) s))"
  let ?A = "case timer g of CTimer t \<Rightarrow> if 0 < time t then (1::nat) else 0 | CStopwatch s \<Rightarrow> 1"
  have q: "fst (check_quit (pressed inp) (late_arrivals inp))"
    using assms(1) by (simp add: check_quit_def)
  have e: "frame ev inp g = frame ev inp (g\<lparr>game_state := None\<rparr>)"
    using frame_update_escape [OF assms(1)] by (simp add: frame_def)
  have fu: "?U = move_all ?g8"
    by (rule frame_update_quit [OF assms(1,3)])
  have c4: "\<not> countdown_completes ev ?g4"
    using assms(3) by (simp add: countdown_completes_def split: clock.splits)
  have g5: "tick_timer ev ?g4 = ?g4\<lparr>timer := ?T, clock_calls := clock_calls g + ?A\<rparr>"
    using tick_timer_plain [OF c4] by (cases "timer g") simp_all
  have u: "game_state ?U = None" "clock_calls ?U = clock_calls g + ?A" "timer ?U = ?T"
    "sprites (player ?U) = sprites (player g)" "drawables ?U = drawables g"
    "bullets ?U = bullets g" "sight (player ?U) = sight (player g)"
    "is_playing_animation (player ?U) = is_playing_animation (player g)"
    by (simp_all add: fu g5 move_all_keeps move_all_rest move_all_sight key_move_sprites
        key_move_sight)
  have um: "count_list (movables g) MPlayer = 1 \<Longrightarrow>
      player ?U = move (key_move (pressed inp) (player g))"
  proof -
    assume m: "count_list (movables g) MPlayer = 1"
    have "movables ?g8 = movables g" by (simp add: g5)
    then have "player (move_all ?g8) = move (player ?g8)"
      using m move_list_player [of "movables ?g8" ?g8] by (simp add: move_all_def)
    then show ?thesis by (simp add: fu)
  qed
  obtain g1 seen g2 where d: "draw_all ev ?U = Inr g1"
    and b: "bullet_collisions 0 [] g1 = Inr (seen, g2)" and f: "g' = frame_finish g2"
    using frame_results [OF assms(2)] by blast
  have d': "draw_list ev (drawables g) ?U = Inr g1"
    using d by (simp add: draw_all_def u)
  have n1: "game_state g1 = None"
    using draw_list_keeps [OF d'] u by simp
  have n2: "game_state g2 = None"
    using bullet_collisions_keeps [OF b] n1 by simp
  have g': "g' = g2" using f n2 by (simp add: frame_finish_none)
  have fin: "\<And>h1 sn h2. draw_all ev ?U = Inr h1 \<Longrightarrow> bullet_collisions 0 [] h1 = Inr (sn, h2)
      \<Longrightarrow> frame_finish h2 = h2"
  proof -
    fix h1 sn h2
    assume a1: "draw_all ev ?U = Inr h1" and a2: "bullet_collisions 0 [] h1 = Inr (sn, h2)"
    have "game_state h1 = None"
      using draw_list_keeps [of ev "drawables ?U" ?U h1] a1 u by (simp add: draw_all_def)
    then have "game_state h2 = None" using bullet_collisions_keeps [OF a2] by simp
    then show "frame_finish h2 = h2" by (rule frame_finish_none)
  qed
  have shape: "frame ev inp g =
       (case draw_all ev ?U of
          Inl e \<Rightarrow> Inl e
        | Inr g1 \<Rightarrow>
            (case bullet_collisions 0 [] g1 of Inl e \<Rightarrow> Inl e | Inr (seen, g2) \<Rightarrow> Inr g2))"
    using fin by (auto simp: frame_def split: sum.splits prod.splits)
  have body1: "p_x (player g1) = p_x (player ?U) \<and> p_y (player g1) = p_y (player ?U)
     \<and> velocity_vector (player g1) = velocity_vector (player ?U)
     \<and> hitbox (player g1) = hitbox (player ?U) \<and> timer g1 = timer ?U \<and> bullets g1 = bullets ?U"
    by (rule draw_list_keeps_body [OF d'])
  have body2: "p_x (player g2) = p_x (player g1) \<and> p_y (player g2) = p_y (player g1)
     \<and> velocity_vector (player g2) = velocity_vector (player g1)
     \<and> hitbox (player g2) = hitbox (player g1) \<and> timer g2 = timer g1"
    by (rule bullet_collisions_keeps_body [OF b])
  have tm: "timer g' = ?T" using g' body1 body2 u by simp
  have calls: "count_list (drawables g) DPlayer = 1 \<longrightarrow>
        clock_calls g' = clock_calls g + ?A + running_cycles (player g)"
  proof
    assume c: "count_list (drawables g) DPlayer = 1"
    have "clock_calls g1 = clock_calls ?U + running_cycles (player ?U)"
      by (rule draw_list_calls [OF c d'])
    moreover have "running_cycles (player ?U) = running_cycles (player g)"
      using u(4) by (rule running_cycles_cong)
    ultimately show "clock_calls g' = clock_calls g + ?A + running_cycles (player g)"
      using bullet_collisions_keeps [OF b] g' u by simp
  qed
  have pos: "count_list (movables g) MPlayer = 1 \<longrightarrow>
        p_x (player g') = p_x (move (key_move (pressed inp) (player g)))
        \<and> p_y (player g') = p_y (move (key_move (pressed inp) (player g)))
        \<and> velocity_vector (player g') = velocity_vector (move (key_move (pressed inp) (player g)))
        \<and> hitbox (player g') = hitbox (move (key_move (pressed inp) (player g)))"
    using um g' body1 body2 by simp
  have sg: "count_list (drawables g) DPlayer = 1 \<and> bullets g = [] \<longrightarrow>
        sight (player g') = sight (animate_sight (player g))
        \<and> is_playing_animation (player g') = is_playing_animation (animate_sight (player g))"
  proof
    assume h: "count_list (drawables g) DPlayer = 1 \<and> bullets g = []"
    then have "bullets g1 = []" using body1 u by simp
    then have "bullet_collisions 0 [] g1 = Inr ([], g1)"
      by (simp add: bullet_collisions_done)
    then have "g2 = g1" using b by simp
    moreover have "sight (player g1) = sight (animate_sight (player ?U))
       \<and> is_playing_animation (player g1) = is_playing_animation (animate_sight (player ?U))"
      using draw_list_sight [OF _ d'] h by blast
    ultimately show "sight (player g') = sight (animate_sight (player g))
        \<and> is_playing_animation (player g') = is_playing_animation (animate_sight (player g))"
      using g' animate_sight_cong [OF u(7) u(8)] by simp
  qed
  have n: "game_state g' = None" using g' n2 by simp
  have r: "run ev (inp2 # inps) g' = Inr g'" using n by simp
  show ?thesis
    using q e fu shape tm calls pos sg n r by blast
qed

lemma frame_update_escape_shape:
  assumes "pressed inp K_ESCAPE"
  shows "frame_update ev inp g =
     (let g5 = tick_timer ev (g\<lparr>event_queue := late_arrivals inp, game_state := None\<rparr>);
          g7 = (if game_state g5 = Some 2 then wall_collisions g5 else g5)
      in move_all (g7\<lparr>player := key_move (pressed inp) (player g7)\<rparr>))"
proof -
  let ?g4 = "g\<lparr>event_queue := late_arrivals inp, game_state := None\<rparr>"
  obtain g4 g5 g6 g7 where
    g4: "g4 = (if fst (check_quit (pressed inp) (late_arrivals inp))
           then g\<lparr>event_queue := snd (check_quit (pressed inp) (late_arrivals inp)),
                  game_state := None\<rparr>
           else g\<lparr>event_queue := snd (check_quit (pressed inp) (late_arrivals inp))\<rparr>)"
    and g5: "g5 = tick_timer ev g4"
    and g6: "g6 = (if game_state g5 = Some 1 then tick_bullet_timer ev g5 else g5)"
    and g7: "g7 = (if game_state g6 = Some 2 then wall_collisions g6 else g6)"
    and fu: "frame_update ev inp g = move_all (g7\<lparr>player := key_move (pressed inp) (player g7)\<rparr>)"
    using frame_update_stages [where inp = inp and g = g and ev = ev] by blast
  have a: "g4 = ?g4" using assms by (simp add: g4 check_quit_def)
  have "game_state g5 \<noteq> Some 1"
    by (simp add: g5 a tick_timer_state)
  then have "g6 = g5" by (simp add: g6)
  then show ?thesis using fu g7 g5 a by (simp add: Let_def)
qed

lemma frame_update_escape_completes:
  assumes "pressed inp K_ESCAPE" and "countdown_completes ev g"
  shows "game_state (frame_update ev inp g) = Some 2"
proof -
  let ?g4 = "g\<lparr>event_queue := late_arrivals inp, game_state := None\<rparr>"
  have "countdown_completes ev ?g4"
    using assms(2) by (simp add: countdown_completes_def split: clock.splits)
  then have "game_state (tick_timer ev ?g4) = Some 2"
    by (simp add: tick_timer_state)
  then show ?thesis
    by (simp add: frame_update_escape_shape [OF assms(1)] Let_def move_all_keeps
        wall_collisions_keeps)
qed

text \<open>
  C2, amended: with the escape key held the quit condition holds, and it is evaluated
  before every step of the frame that reads the phase, the timer tick included: the frame
  runs as from the same state with the phase already \<^verbatim>\<open>None\<close>, and the phase clock is
  ticked on that state (a countdown completing in this very frame then sets the phase to
  2).  If the countdown does not complete in the frame, the rest of the frame still runs:
  the phase clock is ticked, the pacing calls of the phase clock and of the running sprite
  cycles are made, the player gets the position, velocity and hitbox of \<open>move\<close> after
  \<open>key_move\<close>, the draw animates the sight, and the projectile pass runs on the drawn
  state; the steps gated on phase 1, 2 or 3 do nothing; the phase is \<^verbatim>\<open>None\<close> when
  the frame returns, and the loop stops there: whatever inputs follow, no further frame
  runs.
\<close>

theorem escape_ends_loop_after_frame:
  assumes "pressed inp K_ESCAPE" and "frame ev inp g = Inr g'"
  shows "fst (check_quit (pressed inp) (late_arrivals inp))
   \<and> frame ev inp g = frame ev inp (g\<lparr>game_state := None\<rparr>)
   \<and> frame_update ev inp g =
       (let g5 = tick_timer ev (g\<lparr>event_queue := late_arrivals inp, game_state := None\<rparr>);
            g7 = (if game_state g5 = Some 2 then wall_collisions g5 else g5)
        in move_all (g7\<lparr>player := key_move (pressed inp) (player g7)\<rparr>))
   \<and> (countdown_completes ev g \<longrightarrow> game_state (frame_update ev inp g) = Some 2)
   \<and> (\<not> countdown_completes ev g \<longrightarrow>
        frame_update ev inp g =
            move_all ((tick_timer ev (g\<lparr>event_queue := late_arrivals inp, game_state := None\<rparr>))
                        \<lparr>player := key_move (pressed inp) (player g)\<rparr>)
        \<and> frame ev inp g =
            (case draw_all ev (frame_update ev inp g) of
               Inl e \<Rightarrow> Inl e
             | Inr g1 \<Rightarrow>
                 (case bullet_collisions 0 [] g1 of Inl e \<Rightarrow> Inl e | Inr (seen, g2) \<Rightarrow> Inr g2))
        \<and> timer g' =
            (case timer g of
               CTimer t \<Rightarrow> CTimer (fst (Timer_tick (elapsed ev) (clock_calls g) t))
             | CStopwatch s \<Rightarrow> CStopwatch (fst (Stopwatch_tick (elapsed ev) (clock_calls g) s)))
        \<and> (count_list (drawables g) DPlayer = 1 \<longrightarrow>
             clock_calls g' = clock_calls g
               + (case timer g of CTimer t \<Rightarrow> if 0 < time t then 1 else 0 | CStopwatch s \<Rightarrow> 1)
               + running_cycles (player g))
        \<and> (count_list (movables g) MPlayer = 1 \<longrightarrow>
             p_x (player g') = p_x (move (key_move (pressed inp) (player g)))
             \<and> p_y (player g') = p_y (move (key_move (pressed inp) (player g)))
             \<and> velocity_vector (player g') = velocity_vector (move (key_move (pressed inp) (player g)))
             \<and> hitbox (player g') = hitbox (move (key_move (pressed inp) (player g))))
        \<and> (count_list (drawables g) DPlayer = 1 \<and> bullets g = [] \<longrightarrow>
             sight (player g') = sight (animate_sight (player g))
             \<and> is_playing_animation (player g') = is_playing_animation (animate_sight (player g)))
        \<and> game_state g' = None
        \<and> run ev (inp2 # inps) g' = Inr g')"
proof -
  have q: "fst (check_quit (pressed inp) (late_arrivals inp))"
    using assms(1) by (simp add: check_quit_def)
  have e: "frame ev inp g = frame ev inp (g\<lparr>game_state := None\<rparr>)"
    using frame_update_escape [OF assms(1)] by (simp add: frame_def)
  show ?thesis
    using q e frame_update_escape_shape [OF assms(1), of ev g]
      frame_update_escape_completes [OF assms(1), of ev g]
      escape_frame_effects [OF assms(1,2), of inp2 inps]
    by blast
qed

text \<open>
  C2, as stated, fails.  With the escape key (and D) held, the first frame still draws (the
  sight rises from 0 to 0.02) and still moves the player (x goes from 200 to 200.2).  And
  with no key held, a window-close event posted since the last frame does not quit: the
  phase is still 1 after the frame.
\<close>

theorem quit_frame_still_simulates:
  "pressed escape_input K_ESCAPE
   \<and> \<not> isl (frame (steady_env 16) escape_input initial_game)
   \<and> sight (player initial_game) = 0
   \<and> sight (player (projr (frame (steady_env 16) escape_input initial_game))) = 0.02
   \<and> p_x (player initial_game) = 200
   \<and> p_x (player (projr (frame (steady_env 16) escape_input initial_game))) = 200.2
   \<and> arrivals close_input = [QUIT]
   \<and> \<not> isl (frame (steady_env 16) close_input initial_game)
   \<and> game_state (projr (frame (steady_env 16) close_input initial_game)) = Some 1"
  by code_simp

theorem escape_ends_loop_after_frame_witness:
  "pressed escape_input K_ESCAPE
   \<and> frame (steady_env 16) escape_input initial_game
       = Inr (projr (frame (steady_env 16) escape_input initial_game))
   \<and> \<not> countdown_completes (steady_env 16) initial_game
   \<and> count_list (drawables initial_game) DPlayer = 1
   \<and> count_list (movables initial_game) MPlayer = 1
   \<and> bullets initial_game = []
   \<and> clock_calls (projr (frame (steady_env 16) escape_input initial_game)) = 10
   \<and> p_x (player (projr (frame (steady_env 16) escape_input initial_game))) = 200.2
   \<and> sight (player (projr (frame (steady_env 16) escape_input initial_game))) = 0.02
   \<and> game_state (projr (frame (steady_env 16) escape_input initial_game)) = None
   \<and> run (steady_env 16) [idle_input] (projr (frame (steady_env 16) escape_input initial_game))
       = Inr (projr (frame (steady_env 16) escape_input initial_game))"
proof -
  let ?F = "projr (frame (steady_env 16) escape_input initial_game)"
  have "\<not> isl (frame (steady_env 16) escape_input initial_game)"
    by code_simp
  then have a: "frame (steady_env 16) escape_input initial_game = Inr ?F"
    by (cases "frame (steady_env 16) escape_input initial_game") simp_all
  have b: "pressed escape_input K_ESCAPE" "\<not> countdown_completes (steady_env 16) initial_game"
    by code_simp+
  have c: "count_list (drawables initial_game) DPlayer = 1"
    "count_list (movables initial_game) MPlayer = 1" "bullets initial_game = []"
    by (simp_all add: initial_game_def)
  have v: "clock_calls initial_game
       + (case timer initial_game of CTimer t \<Rightarrow> if 0 < time t then 1 else 0 | CStopwatch s \<Rightarrow> 1)
       + running_cycles (player initial_game) = 10"
    "p_x (move (key_move (pressed escape_input) (player initial_game))) = 200.2"
    "sight (animate_sight (player initial_game)) = 0.02"
    by code_simp+
  note th = escape_ends_loop_after_frame [OF b(1) a, of idle_input "[]"]
  have t1: "clock_calls ?F = clock_calls initial_game
       + (case timer initial_game of CTimer t \<Rightarrow> if 0 < time t then 1 else 0 | CStopwatch s \<Rightarrow> 1)
       + running_cycles (player initial_game)"
    using th b(2) c(1) by blast
  have t2: "p_x (player ?F) = p_x (move (key_move (pressed escape_input) (player initial_game)))"
    using th b(2) c(2) by blast
  have t3: "sight (player ?F) = sight (animate_sight (player initial_game))"
    using th b(2) c(1,3) by blast
  have t4: "game_state ?F = None" "run (steady_env 16) [idle_input] ?F = Inr ?F"
    using th b(2) by blast+
  have t: "clock_calls ?F = 10" "p_x (player ?F) = 200.2" "sight (player ?F) = 0.02"
    using t1 t2 t3 v by simp_all
  show ?thesis
    using a b c t t4 by blast
qed

end
